theory Spec2Isabelle
  imports Complex_Main "HOL-Library.AList"
begin

section \<open>Python values used by the storefront views\<close>

subsection \<open>Integers and their decimal strings\<close>

text \<open>
  The cart stores product ids as \<^verbatim>\<open>str(product.id)\<close> and reads them back with
  \<^verbatim>\<open>int(product_id)\<close>; \<^verbatim>\<open>add_to_cart\<close> converts the submitted quantity with
  \<^verbatim>\<open>int(...)\<close>.  Strings are lists of 8-bit characters here, so only the whitespace and
  digits of that range occur.

  \<^verbatim>\<open>str(i)\<close> writes the decimal digits of \<open>i\<close>, after a minus sign when \<open>i\<close> is
  negative.  Python refuses the conversion, in both directions, when more than
  \<^verbatim>\<open>sys.int_max_str_digits\<close> (4300) digits are involved, with \<^verbatim>\<open>ValueError\<close>.
\<close>

datatype exn =
    ValueError
  | Http404
  | NoReverseMatch
  | Overflow
  | BadHeaderError
  | TypeError
  | SignatureVerificationError
  | GatewayError

definition digit_char :: "nat \<Rightarrow> char" where
  "digit_char d = char_of (48 + d)"

fun str_nat :: "nat \<Rightarrow> string" where
  "str_nat n = (if n < 10 then [digit_char n] else str_nat (n div 10) @ [digit_char (n mod 10)])"

declare str_nat.simps [simp del]

definition str_int :: "int \<Rightarrow> string" where
  "str_int i = (if i < 0 then CHR ''-'' # str_nat (nat (- i)) else str_nat (nat i))"

definition INT_MAX_STR_DIGITS :: nat where
  "INT_MAX_STR_DIGITS = 4300"

definition py_str :: "int \<Rightarrow> exn + string" where
  "py_str i =
     (if INT_MAX_STR_DIGITS < length (str_nat (nat \<bar>i\<bar>)) then Inl ValueError
      else Inr (str_int i))"

text \<open>
  \<^verbatim>\<open>s.strip()\<close> removes the characters of \<^verbatim>\<open>str.isspace\<close> from both ends: the ASCII
  whitespace, the separators \<open>0x1C\<close> to \<open>0x1F\<close>, and \<open>0x85\<close> and \<open>0xA0\<close>.
\<close>

definition is_space :: "char \<Rightarrow> bool" where
  "is_space c = ((of_char c :: nat) \<in> {9, 10, 11, 12, 13, 28, 29, 30, 31, 32, 133, 160})"

definition strip :: "string \<Rightarrow> string" where
  "strip s = rev (dropWhile is_space (rev (dropWhile is_space s)))"

text \<open>
  \<^verbatim>\<open>int(s)\<close> skips less at the ends of a string: the ASCII whitespace \<open>\t \n \v \f \r\<close>
  and the blank, and the two whitespace characters above \<open>0x7F\<close>; the separators
  \<open>0x1C\<close> to \<open>0x1F\<close> make it raise.  It then accepts one optional sign and requires
  decimal digits, where single underscores may separate digits; anything else raises
  \<^verbatim>\<open>ValueError\<close>, and so do more than 4300 digits.
\<close>

definition is_int_space :: "char \<Rightarrow> bool" where
  "is_int_space c = ((of_char c :: nat) \<in> {9, 10, 11, 12, 13, 32, 133, 160})"

definition int_strip :: "string \<Rightarrow> string" where
  "int_strip s = rev (dropWhile is_int_space (rev (dropWhile is_int_space s)))"

definition is_digit :: "char \<Rightarrow> bool" where
  "is_digit c = (48 \<le> (of_char c :: nat) \<and> (of_char c :: nat) \<le> 57)"

definition digit_val :: "char \<Rightarrow> nat" where
  "digit_val c = of_char c - 48"

text \<open>
  \<open>digits_val acc cs\<close> reads the rest of a numeral after a digit: a digit continues the
  numeral, an underscore must be followed by a digit.
\<close>

fun digits_val :: "nat \<Rightarrow> string \<Rightarrow> nat option" where
  "digits_val acc [] = Some acc"
| "digits_val acc [c] = (if is_digit c then Some (acc * 10 + digit_val c) else None)"
| "digits_val acc (c # d # ds) =
     (if is_digit c then digits_val (acc * 10 + digit_val c) (d # ds)
      else if c = CHR ''_'' \<and> is_digit d then digits_val (acc * 10 + digit_val d) ds
      else None)"

definition parse_nat :: "string \<Rightarrow> nat option" where
  "parse_nat s =
     (case s of [] \<Rightarrow> None
      | c # cs \<Rightarrow>
          if is_digit c \<and> length (filter is_digit s) \<le> INT_MAX_STR_DIGITS
          then digits_val (digit_val c) cs else None)"

definition py_int :: "string \<Rightarrow> exn + int" where
  "py_int s =
     (let t = int_strip s;
          r = (case t of
                 [] \<Rightarrow> None
               | c # cs \<Rightarrow>
                   if c = CHR ''+'' then map_option int (parse_nat cs)
                   else if c = CHR ''-'' then map_option (\<lambda>n. - int n) (parse_nat cs)
                   else map_option int (parse_nat t))
      in case r of None \<Rightarrow> Inl ValueError | Some i \<Rightarrow> Inr i)"

subsection \<open>Decimal numbers\<close>

text \<open>
  A finite \<^verbatim>\<open>decimal.Decimal\<close> is a coefficient and an exponent: the number
  \<open>coefficient * 10 ^ exponent\<close>.  \<^verbatim>\<open>Product.price\<close> is a
  \<^verbatim>\<open>DecimalField(max_digits=10, decimal_places=2)\<close>, so a price read from the catalog
  has exponent \<open>-2\<close>.

  The views compute in the default context: precision 28, rounding half-even, exponents
  between \<open>Emin = -999999\<close> and \<open>Emax = 999999\<close>, and the \<^verbatim>\<open>Overflow\<close> signal trapped.
  Every sum and product is the exact result passed through the context
  (\<^verbatim>\<open>Decimal._fix\<close>): a coefficient of more than 28 digits is rounded to 28 digits and
  the exponent raised by the number of digits dropped; a result beyond \<open>Emax\<close> raises
  \<^verbatim>\<open>Overflow\<close>; a zero keeps its exponent, clamped to the exponent range.
\<close>

datatype decimal = Decimal (coefficient: int) (exponent: int)

definition PREC :: int where
  "PREC = 28"

definition EMAX :: int where
  "EMAX = 999999"

definition EMIN :: int where
  "EMIN = - 999999"

definition ETINY :: int where
  "ETINY = EMIN - (PREC - 1)"

definition ETOP :: int where
  "ETOP = EMAX - (PREC - 1)"

text \<open>The number of decimal digits of a non-negative integer; zero has one digit.\<close>

function ndigits :: "int \<Rightarrow> int" where
  "ndigits n = (if n < 10 then 1 else 1 + ndigits (n div 10))"
  by pat_completeness auto
termination
  by (relation "measure nat") auto

declare ndigits.simps [simp del]

text \<open>
  \<open>a / m\<close> rounded to the nearest integer, a tie to the even one, for a non-negative
  \<open>a\<close> and a positive \<open>m\<close>.
\<close>

definition round_half_even :: "int \<Rightarrow> int \<Rightarrow> int" where
  "round_half_even a m =
     (let q = a div m; r = a mod m
      in if 2 * r < m then q
         else if m < 2 * r then q + 1
         else if even q then q else q + 1)"

definition dec_fix :: "decimal \<Rightarrow> exn + decimal" where
  "dec_fix d =
     (let c = coefficient d; e = exponent d
      in if c = 0 then Inr (Decimal 0 (min (max e ETINY) EMAX))
         else (let exp_min0 = ndigits \<bar>c\<bar> + e - PREC
               in if ETOP < exp_min0 then Inl Overflow
                  else (let exp_min = max exp_min0 ETINY
                        in if e < exp_min then
                             (let m = round_half_even \<bar>c\<bar> (10 ^ nat (exp_min - e));
                                  long = (PREC < ndigits m);
                                  m' = (if long then m div 10 else m);
                                  e' = (if long then exp_min + 1 else exp_min)
                              in if ETOP < e' then Inl Overflow
                                 else Inr (Decimal (sgn c * m') e'))
                           else Inr d)))"

text \<open>An \<^verbatim>\<open>int\<close> operand is converted exactly, to the decimal with exponent 0.\<close>

definition dec_of_int :: "int \<Rightarrow> decimal" where
  "dec_of_int i = Decimal i 0"

definition dec_add :: "decimal \<Rightarrow> decimal \<Rightarrow> exn + decimal" where
  "dec_add a b =
     (let e = min (exponent a) (exponent b)
      in dec_fix (Decimal (coefficient a * 10 ^ nat (exponent a - e)
                           + coefficient b * 10 ^ nat (exponent b - e)) e))"

definition dec_mul :: "decimal \<Rightarrow> decimal \<Rightarrow> exn + decimal" where
  "dec_mul a b = dec_fix (Decimal (coefficient a * coefficient b) (exponent a + exponent b))"

definition dec_mul_int :: "decimal \<Rightarrow> int \<Rightarrow> exn + decimal" where
  "dec_mul_int a i = dec_mul a (dec_of_int i)"

text \<open>\<^verbatim>\<open>int(d)\<close> truncates towards zero.\<close>

definition dec_int :: "decimal \<Rightarrow> int" where
  "dec_int a =
     (if 0 \<le> exponent a then coefficient a * 10 ^ nat (exponent a)
      else sgn (coefficient a) * (\<bar>coefficient a\<bar> div 10 ^ nat (- exponent a)))"

text \<open>\<^verbatim>\<open>round(d)\<close> rounds to the nearest integer, a tie to the even one.\<close>

definition dec_round :: "decimal \<Rightarrow> int" where
  "dec_round a =
     (if 0 \<le> exponent a then coefficient a * 10 ^ nat (exponent a)
      else (let d = 10 ^ nat (- exponent a);
                q = coefficient a div d;
                r = coefficient a mod d
            in if 2 * r < d then q
               else if d < 2 * r then q + 1
               else if even q then q else q + 1))"

text \<open>The rational number a decimal stands for.\<close>

definition dec_val :: "decimal \<Rightarrow> rat" where
  "dec_val a =
     (if 0 \<le> exponent a then of_int (coefficient a) * 10 ^ nat (exponent a)
      else of_int (coefficient a) / 10 ^ nat (- exponent a))"

section \<open>Catalog, cart and session\<close>

text \<open>
  \<^verbatim>\<open>models.py\<close>: a row of the \<^verbatim>\<open>Product\<close> table.  The catalog is the list of rows in
  the order a query returns them (\<^verbatim>\<open>Meta.ordering = ["name"]\<close>); \<open>pid\<close> is the primary
  key \<^verbatim>\<open>id\<close>.
\<close>

record product =
  pid :: int
  name :: string
  price :: decimal
  is_featured :: bool
  is_active :: bool

type_synonym catalog = "product list"

text \<open>
  The cart is a Python dict from \<^verbatim>\<open>str(product.id)\<close> to a quantity, kept in the
  session.  It is an association list here: \<^verbatim>\<open>cart[key] = v\<close> is \<open>AList.update\<close>
  (replace in place, or append), \<^verbatim>\<open>del cart[key]\<close> is \<open>AList.delete\<close>.
\<close>

type_synonym cart = "(string \<times> int) list"

definition cart_get :: "cart \<Rightarrow> string \<Rightarrow> int \<Rightarrow> int" where
  "cart_get c k d = (case map_of c k of None \<Rightarrow> d | Some q \<Rightarrow> q)"

record cart_item =
  product :: product
  quantity :: int
  line_total :: decimal

text \<open>
  The pending-payment record is the dict \<^verbatim>\<open>checkout\<close> stores under
  \<^verbatim>\<open>"pending_online_payment"\<close> (lines 346-353), the only place that writes one; the
  other value the key ever holds is the empty dict written by \<^verbatim>\<open>payment_verify\<close>.
  The amount is stored as \<^verbatim>\<open>str(total)\<close> and read back with \<^verbatim>\<open>Decimal(...)\<close>, which
  gives the same decimal, so the record keeps the decimal.
\<close>

record pending_payment =
  customer_name :: string
  customer_email :: string
  customer_address :: string
  amount :: decimal
  razorpay_order_id :: string
  pending_username :: string

datatype pending_value = EmptyDict | PendingDict pending_payment

record session =
  cart_slot :: "cart option"
  pending_slot :: "pending_value option"
  session_key :: "string option"
  modified :: bool

record user =
  is_authenticated :: bool
  username :: string
  email :: string
  full_name :: string

text \<open>
  \<open>http_method\<close> is \<^verbatim>\<open>request.method\<close>; \<open>POST\<close> is the submitted form as
  \<^verbatim>\<open>request.POST.get\<close> sees it.
\<close>

record request =
  http_method :: string
  POST :: "string \<rightharpoonup> string"
  user :: user
  session :: session

definition form_get :: "(string \<rightharpoonup> string) \<Rightarrow> string \<Rightarrow> string \<Rightarrow> string" where
  "form_get f k d = (case f k of None \<Rightarrow> d | Some v \<Rightarrow> v)"

text \<open>\<^verbatim>\<open>a or b\<close> on strings: the empty string is false.\<close>

definition str_or :: "string \<Rightarrow> string \<Rightarrow> string" where
  "str_or a b = (if a = [] then b else a)"

section \<open>Collaborators: settings, payment gateway, mail\<close>

record order_data =
  order_amount :: int
  currency :: string
  receipt :: string
  order_notes :: "(string \<times> string) list"

text \<open>
  The gateway client.  \<^verbatim>\<open>order.create\<close> returns the id of the remote order or raises.
  \<^verbatim>\<open>utility.verify_payment_signature\<close> returns (\<open>None\<close>) or raises: the library's
  \<^verbatim>\<open>SignatureVerificationError\<close> for a signature that does not match, and whatever
  else the comparison raises, such as \<^verbatim>\<open>TypeError\<close> for a signature that is not ASCII.
\<close>

record gateway_client =
  order_create :: "order_data \<Rightarrow> exn + string"
  verify_payment_signature :: "string \<Rightarrow> string \<Rightarrow> string \<Rightarrow> exn option"

text \<open>
  One call of \<^verbatim>\<open>_send_order_notification\<close>, with its keyword arguments in the order
  \<^verbatim>\<open>customer_name, customer_email, total, payment_method, payment_id, username\<close>.
\<close>

datatype notify_call = NotifyCall string string decimal string string string

text \<open>
  One call of \<^verbatim>\<open>send_mail\<close>; the lines of the message are formatted from the
  arguments of the notification, which \<open>about\<close> keeps.
\<close>

record mail =
  subject :: string
  about :: notify_call
  from_email :: string
  recipient_list :: "string list"

text \<open>
  The settings and what lies behind them.  An unset setting is the empty string
  (\<^verbatim>\<open>getattr(settings, ..., "")\<close>).  \<open>razorpay\<close> is \<open>None\<close> when the library could not
  be imported, and otherwise builds the client for a pair of credentials.

  \<open>send_mail\<close> is the mail transport behind
  \<^verbatim>\<open>send_mail(..., fail_silently=True)\<close>: \<open>None\<close> when the call returns, which
  includes every delivery failure the flag silences, and the exception when one escapes
  all the same, as \<^verbatim>\<open>BadHeaderError\<close> does for a subject with a line break when the
  backend builds the message.

  \<open>other_url_names\<close> are the URL names that resolve without arguments besides those of
  \<^verbatim>\<open>storefront/urls.py\<close>: the project's root URLconf is not part of the source.
\<close>

record config =
  RAZORPAY_KEY_ID :: string
  RAZORPAY_KEY_SECRET :: string
  ORDER_NOTIFY_EMAIL :: string
  DEFAULT_FROM_EMAIL :: string
  razorpay :: "(string \<Rightarrow> string \<Rightarrow> gateway_client) option"
  send_mail :: "mail \<Rightarrow> exn option"
  other_url_names :: "string list"

datatype level = MsgSuccess | MsgInfo | MsgWarning | MsgError

datatype response =
    Redirect string
  | RedirectToLogin
  | HttpResponseNotAllowed
  | RenderCart "cart_item list" decimal
  | RenderCheckout "cart_item list" decimal
  | RenderCheckoutSuccess string decimal string "string option"
  | RenderOnlinePayment string string int decimal string string
  | RenderPaymentFailed string

text \<open>
  What a view that returns leaves behind: the response, the session, the flash messages,
  the calls of the notifier that returned, the remote orders created and the address
  saved to the profile.  A view that raises is the exception alone: the request ends in
  a server error and the session is not saved.
\<close>

record outcome =
  response :: response
  session_after :: session
  flash :: "(level \<times> string) list"
  notifications :: "notify_call list"
  orders :: "order_data list"
  saved_address :: "string option"

definition respond :: "request \<Rightarrow> response \<Rightarrow> (level \<times> string) list \<Rightarrow> outcome" where
  "respond req r msgs =
     \<lparr>response = r, session_after = session req, flash = msgs,
      notifications = [], orders = [], saved_address = None\<rparr>"

section \<open>The views\<close>

definition CART_SESSION_KEY :: string where
  "CART_SESSION_KEY = ''cart''"

definition PENDING_PAYMENT_SESSION_KEY :: string where
  "PENDING_PAYMENT_SESSION_KEY = ''pending_online_payment''"

definition PAYMENT_METHODS :: "(string \<times> string) list" where
  "PAYMENT_METHODS =
     [(''cod'', ''Cash on Delivery''),
      (''online'', ''Online Payment (UPI / Debit Card / Credit Card)'')]"

definition payment_label :: "string \<Rightarrow> string" where
  "payment_label m = (case map_of PAYMENT_METHODS m of None \<Rightarrow> [] | Some l \<Rightarrow> l)"

text \<open>
  \<^verbatim>\<open>storefront/urls.py\<close>: the names of the URL patterns without arguments.  The
  redirects the views make to \<^verbatim>\<open>"products"\<close>, \<^verbatim>\<open>"checkout"\<close> and \<^verbatim>\<open>"cart"\<close> are to
  names of this list.
\<close>

definition URL_NAMES :: "string list" where
  "URL_NAMES =
     [''home'', ''profile'', ''register'', ''login'', ''logout'', ''products'', ''about'',
      ''contact'', ''cart'', ''checkout'', ''payment_verify'']"

text \<open>
  \<^verbatim>\<open>redirect(to)\<close> resolves its target first: a string that starts with \<^verbatim>\<open>./\<close> or
  \<^verbatim>\<open>../\<close> is a relative URL; otherwise the string is reversed as a URL name; when
  that fails, a string with a slash or a dot is taken as a URL, and any other string
  raises \<^verbatim>\<open>NoReverseMatch\<close>.  The result stands for the URL the target resolves to.
\<close>

definition resolve_url :: "config \<Rightarrow> string \<Rightarrow> exn + string" where
  "resolve_url cfg to =
     (if take 2 to = ''./'' \<or> take 3 to = ''../'' then Inr to
      else if to \<in> set URL_NAMES \<union> set (other_url_names cfg) then Inr to
      else if CHR ''/'' \<notin> set to \<and> CHR ''.'' \<notin> set to then Inl NoReverseMatch
      else Inr to)"

definition get_cart :: "request \<Rightarrow> cart" where
  "get_cart req = (case cart_slot (session req) of None \<Rightarrow> [] | Some c \<Rightarrow> c)"

definition save_cart :: "session \<Rightarrow> cart \<Rightarrow> session" where
  "save_cart s c = s\<lparr>cart_slot := Some c, modified := True\<rparr>"

text \<open>\<^verbatim>\<open>[int(product_id) for product_id in cart.keys()]\<close>: the first bad key raises.\<close>

fun int_keys :: "string list \<Rightarrow> exn + int list" where
  "int_keys [] = Inr []"
| "int_keys (k # ks) =
     (case py_int k of
        Inl e \<Rightarrow> Inl e
      | Inr i \<Rightarrow> (case int_keys ks of Inl e \<Rightarrow> Inl e | Inr is \<Rightarrow> Inr (i # is)))"

text \<open>\<^verbatim>\<open>Product.objects.filter(id__in=product_ids, is_active=True)\<close>\<close>

definition filter_active_in :: "catalog \<Rightarrow> int list \<Rightarrow> product list" where
  "filter_active_in K ids = filter (\<lambda>p. pid p \<in> set ids \<and> is_active p) K"

text \<open>
  The loop of \<^verbatim>\<open>_build_cart_items\<close> over the products the query returned: the key,
  the line total and the running total can each raise.
\<close>

fun price_loop ::
  "cart \<Rightarrow> product list \<Rightarrow> cart_item list \<Rightarrow> decimal \<Rightarrow> exn + cart_item list \<times> decimal" where
  "price_loop c [] items tot = Inr (items, tot)"
| "price_loop c (p # ps) items tot =
     (case py_str (pid p) of
        Inl e \<Rightarrow> Inl e
      | Inr key \<Rightarrow>
         (let q = cart_get c key 0
          in case dec_mul_int (price p) q of
               Inl e \<Rightarrow> Inl e
             | Inr lt \<Rightarrow>
                (case dec_add tot lt of
                   Inl e \<Rightarrow> Inl e
                 | Inr tot' \<Rightarrow>
                     price_loop c ps
                       (items @ [\<lparr>product = p, quantity = q, line_total = lt\<rparr>]) tot')))"

definition build_cart_items :: "catalog \<Rightarrow> cart \<Rightarrow> exn + cart_item list \<times> decimal" where
  "build_cart_items K c =
     (if c = [] then Inr ([], Decimal 0 (- 2))
      else (case int_keys (map fst c) of
              Inl e \<Rightarrow> Inl e
            | Inr product_ids \<Rightarrow>
                price_loop c (filter_active_in K product_ids) [] (Decimal 0 (- 2))))"

definition get_razorpay_client :: "config \<Rightarrow> gateway_client option" where
  "get_razorpay_client cfg =
     (if RAZORPAY_KEY_ID cfg = [] \<or> RAZORPAY_KEY_SECRET cfg = [] then None
      else (case razorpay cfg of
              None \<Rightarrow> None
            | Some mk \<Rightarrow> Some (mk (RAZORPAY_KEY_ID cfg) (RAZORPAY_KEY_SECRET cfg))))"

text \<open>
  \<^verbatim>\<open>_send_order_notification\<close>: nothing is composed or sent when no notification
  address is set; otherwise one mail is handed to the transport, and what escapes the
  transport escapes the notifier.
\<close>

fun notification_mail :: "config \<Rightarrow> notify_call \<Rightarrow> mail option" where
  "notification_mail cfg (NotifyCall cname cemail tot pm payment_id uname) =
     (if ORDER_NOTIFY_EMAIL cfg = [] then None
      else Some \<lparr>subject = ''New Order Placed: '' @ cname,
                 about = NotifyCall cname cemail tot pm payment_id uname,
                 from_email = DEFAULT_FROM_EMAIL cfg,
                 recipient_list = [ORDER_NOTIFY_EMAIL cfg]\<rparr>)"

definition send_order_notification :: "config \<Rightarrow> notify_call \<Rightarrow> exn + unit" where
  "send_order_notification cfg n =
     (case notification_mail cfg n of
        None \<Rightarrow> Inr ()
      | Some m \<Rightarrow> (case send_mail cfg m of None \<Rightarrow> Inr () | Some e \<Rightarrow> Inl e))"

text \<open>The mails handed to the transport by the notifier calls of an outcome.\<close>

definition mails_sent :: "config \<Rightarrow> outcome \<Rightarrow> mail list" where
  "mails_sent cfg out =
     concat (map (\<lambda>n. case notification_mail cfg n of None \<Rightarrow> [] | Some m \<Rightarrow> [m])
               (notifications out))"

definition get_object_or_404 :: "catalog \<Rightarrow> int \<Rightarrow> exn + product" where
  "get_object_or_404 K i =
     (case find (\<lambda>p. pid p = i \<and> is_active p) K of
        None \<Rightarrow> Inl Http404
      | Some p \<Rightarrow> Inr p)"

text \<open>
  \<^verbatim>\<open>int(request.POST.get("quantity", 1))\<close>: a missing field is the integer 1, a
  submitted one is converted and may raise.
\<close>

definition posted_quantity :: "request \<Rightarrow> exn + int" where
  "posted_quantity req =
     (case POST req ''quantity'' of None \<Rightarrow> Inr 1 | Some s \<Rightarrow> py_int s)"

text \<open>
  \<^verbatim>\<open>add_to_cart\<close> (\<^verbatim>\<open>@require_POST\<close>): the lookup, the conversion of the quantity,
  the key, the write to the session, the flash message, and last the redirect, whose
  target is the submitted \<^verbatim>\<open>next\<close> and may fail to resolve.
\<close>

definition add_to_cart :: "config \<Rightarrow> catalog \<Rightarrow> request \<Rightarrow> int \<Rightarrow> exn + outcome" where
  "add_to_cart cfg K req product_id =
     (if http_method req \<noteq> ''POST'' then Inr (respond req HttpResponseNotAllowed [])
      else (case get_object_or_404 K product_id of
              Inl e \<Rightarrow> Inl e
            | Inr p \<Rightarrow>
               (case posted_quantity req of
                  Inl e \<Rightarrow> Inl e
                | Inr q0 \<Rightarrow>
                   (let q = (if q0 < 1 then 1 else q0);
                        c = get_cart req
                    in case py_str (pid p) of
                         Inl e \<Rightarrow> Inl e
                       | Inr key \<Rightarrow>
                          (let c' = AList.update key (cart_get c key 0 + q) c
                           in case resolve_url cfg
                                     (str_or (form_get (POST req) ''next'' []) ''products'') of
                                Inl e \<Rightarrow> Inl e
                              | Inr to \<Rightarrow>
                                  Inr ((respond req (Redirect to)
                                          [(MsgSuccess, ''Added '' @ name p @ '' to cart.'')])
                                       \<lparr>session_after := save_cart (session req) c'\<rparr>))))))"

definition remove_from_cart :: "request \<Rightarrow> int \<Rightarrow> exn + outcome" where
  "remove_from_cart req product_id =
     (if http_method req \<noteq> ''POST'' then Inr (respond req HttpResponseNotAllowed [])
      else (let c = get_cart req
            in case py_str product_id of
                 Inl e \<Rightarrow> Inl e
               | Inr key \<Rightarrow>
                   if key \<in> fst ` set c
                   then Inr ((respond req (Redirect ''cart'')
                                [(MsgInfo, ''Item removed from cart.'')])
                             \<lparr>session_after := save_cart (session req) (AList.delete key c)\<rparr>)
                   else Inr (respond req (Redirect ''cart'') [])))"

definition cart_view :: "catalog \<Rightarrow> request \<Rightarrow> exn + outcome" where
  "cart_view K req =
     (case build_cart_items K (get_cart req) of
        Inl e \<Rightarrow> Inl e
      | Inr (items, tot) \<Rightarrow> Inr (respond req (RenderCart items tot) []))"

text \<open>
  The fields \<^verbatim>\<open>checkout\<close> reads from the form (lines 290-293): the name falls back
  to the user's full name or username, the e-mail to the user's, the payment method to
  \<^verbatim>\<open>"cod"\<close>.
\<close>

definition posted_name :: "request \<Rightarrow> string" where
  "posted_name req =
     str_or (strip (form_get (POST req) ''name''
                      (str_or (full_name (user req)) (username (user req)))))
            (username (user req))"

definition posted_email :: "request \<Rightarrow> string" where
  "posted_email req = strip (form_get (POST req) ''email'' (email (user req)))"

definition posted_address :: "request \<Rightarrow> string" where
  "posted_address req = strip (form_get (POST req) ''address'' [])"

definition posted_payment_method :: "request \<Rightarrow> string" where
  "posted_payment_method req = form_get (POST req) ''payment_method'' ''cod''"

text \<open>
  The \<^verbatim>\<open>data\<close> of \<^verbatim>\<open>client.order.create\<close> (lines 332-343):
  \<^verbatim>\<open>int(total * 100)\<close>, where the product can raise \<^verbatim>\<open>Overflow\<close>, and the receipt,
  whose formatting of the amount can raise \<^verbatim>\<open>ValueError\<close>.
\<close>

definition remote_order :: "request \<Rightarrow> decimal \<Rightarrow> exn + order_data" where
  "remote_order req tot =
     (case dec_mul_int tot 100 of
        Inl e \<Rightarrow> Inl e
      | Inr x \<Rightarrow>
         (let amount_subunits = dec_int x
          in case py_str amount_subunits of
               Inl e \<Rightarrow> Inl e
             | Inr digits \<Rightarrow>
                 Inr \<lparr>order_amount = amount_subunits,
                      currency = ''INR'',
                      receipt = ''order_''
                        @ (case session_key (session req) of
                             None \<Rightarrow> username (user req)
                           | Some k \<Rightarrow> str_or k (username (user req)))
                        @ ''_'' @ digits,
                      order_notes = [(''customer_name'', posted_name req),
                                     (''email'', posted_email req),
                                     (''username'', username (user req))]\<rparr>))"

text \<open>The record stored under \<^verbatim>\<open>"pending_online_payment"\<close> (lines 346-353).\<close>

definition new_pending :: "request \<Rightarrow> decimal \<Rightarrow> string \<Rightarrow> pending_payment" where
  "new_pending req tot order_id =
     \<lparr>customer_name = posted_name req, customer_email = posted_email req,
      customer_address = posted_address req, amount = tot,
      razorpay_order_id = order_id, pending_username = username (user req)\<rparr>"

text \<open>
  \<^verbatim>\<open>checkout\<close> (\<^verbatim>\<open>@login_required\<close>).  The profile row the view fetches or creates
  is not part of the model; the address it saves is.  On the cash-on-delivery path the
  notifier is called before the cart is cleared, so a notifier that raises leaves the
  cart as it was.
\<close>

definition checkout :: "config \<Rightarrow> catalog \<Rightarrow> request \<Rightarrow> exn + outcome" where
  "checkout cfg K req =
     (if \<not> is_authenticated (user req) then Inr (respond req RedirectToLogin [])
      else (case build_cart_items K (get_cart req) of
        Inl e \<Rightarrow> Inl e
      | Inr (items, tot) \<Rightarrow>
         if items = [] then
           Inr (respond req (Redirect ''products'') [(MsgWarning, ''Your cart is empty.'')])
         else if http_method req = ''POST'' then
           (let payment_method = posted_payment_method req;
                saved = (if posted_address req \<noteq> [] then Some (posted_address req) else None)
            in if payment_method \<notin> fst ` set PAYMENT_METHODS then
                 Inr ((respond req (Redirect ''checkout'')
                         [(MsgError, ''Please select a valid payment method.'')])
                      \<lparr>saved_address := saved\<rparr>)
               else if payment_method = ''cod'' then
                 (case send_order_notification cfg
                         (NotifyCall (posted_name req) (posted_email req) tot
                            (payment_label ''cod'') [] (username (user req))) of
                    Inl e \<Rightarrow> Inl e
                  | Inr u \<Rightarrow>
                     Inr \<lparr>response = RenderCheckoutSuccess (posted_name req) tot
                                       (payment_label payment_method) None,
                          session_after = (session req)\<lparr>cart_slot := Some [], modified := True\<rparr>,
                          flash = [],
                          notifications =
                            [NotifyCall (posted_name req) (posted_email req) tot
                               (payment_label ''cod'') [] (username (user req))],
                          orders = [],
                          saved_address = saved\<rparr>)
               else (case get_razorpay_client cfg of
                 None \<Rightarrow>
                   Inr ((respond req (Redirect ''checkout'')
                           [(MsgError, ''Online payment is not configured yet. Add Razorpay keys in settings/env.'')])
                        \<lparr>saved_address := saved\<rparr>)
               | Some client \<Rightarrow>
                   (case remote_order req tot of
                      Inl e \<Rightarrow> Inl e
                    | Inr od \<Rightarrow>
                       (case order_create client od of
                          Inl e \<Rightarrow> Inl e
                        | Inr order_id \<Rightarrow>
                            Inr \<lparr>response = RenderOnlinePayment (RAZORPAY_KEY_ID cfg) order_id
                                              (order_amount od) tot
                                              (posted_name req) (posted_email req),
                                 session_after = (session req)
                                   \<lparr>pending_slot :=
                                      Some (PendingDict (new_pending req tot order_id)),
                                    modified := True\<rparr>,
                                 flash = [],
                                 notifications = [],
                                 orders = [od],
                                 saved_address = saved\<rparr>))))
         else Inr (respond req (RenderCheckout items tot) [])))"

text \<open>
  \<^verbatim>\<open>payment_verify\<close> (\<^verbatim>\<open>@login_required\<close>, then \<^verbatim>\<open>@require_POST\<close>).  Only
  \<^verbatim>\<open>SignatureVerificationError\<close> is caught; the notifier is called before the session
  is written.
\<close>

definition payment_verify :: "config \<Rightarrow> request \<Rightarrow> exn + outcome" where
  "payment_verify cfg req =
     (if \<not> is_authenticated (user req) then Inr (respond req RedirectToLogin [])
      else if http_method req \<noteq> ''POST'' then Inr (respond req HttpResponseNotAllowed [])
      else (case get_razorpay_client cfg of
        None \<Rightarrow>
          Inr (respond req (Redirect ''checkout'')
                 [(MsgError, ''Online payment is not configured.'')])
      | Some client \<Rightarrow>
         (case pending_slot (session req) of
            None \<Rightarrow>
              Inr (respond req (Redirect ''checkout'')
                     [(MsgError, ''No pending online payment found.'')])
          | Some EmptyDict \<Rightarrow>
              Inr (respond req (Redirect ''checkout'')
                     [(MsgError, ''No pending online payment found.'')])
          | Some (PendingDict pending) \<Rightarrow>
             (let razorpay_payment_id = form_get (POST req) ''razorpay_payment_id'' [];
                  order_id = form_get (POST req) ''razorpay_order_id'' [];
                  razorpay_signature = form_get (POST req) ''razorpay_signature'' [];
                  uname = username (user req)
              in if order_id \<noteq> razorpay_order_id pending then
                   Inr (respond req (Redirect ''checkout'')
                          [(MsgError, ''Order mismatch detected. Please try checkout again.'')])
                 else
                   (case verify_payment_signature client order_id razorpay_payment_id
                           razorpay_signature of
                      Some e \<Rightarrow>
                        if e = SignatureVerificationError then
                          Inr (respond req
                                 (RenderPaymentFailed ''Payment signature verification failed.'')
                                 [])
                        else Inl e
                    | None \<Rightarrow>
                       (case send_order_notification cfg
                               (NotifyCall (str_or (customer_name pending) uname)
                                  (customer_email pending) (amount pending)
                                  (payment_label ''online'') razorpay_payment_id
                                  (pending_username pending)) of
                          Inl e \<Rightarrow> Inl e
                        | Inr u \<Rightarrow>
                           Inr \<lparr>response = RenderCheckoutSuccess
                                             (str_or (customer_name pending) uname)
                                             (amount pending)
                                             (payment_label ''online'') (Some razorpay_payment_id),
                                session_after = (session req)
                                  \<lparr>cart_slot := Some [], pending_slot := Some EmptyDict,
                                   modified := True\<rparr>,
                                flash = [],
                                notifications =
                                  [NotifyCall (str_or (customer_name pending) uname)
                                     (customer_email pending) (amount pending)
                                     (payment_label ''online'') razorpay_payment_id
                                     (pending_username pending)],
                                orders = [],
                                saved_address = None\<rparr>))))))"

section \<open>What the specification says of pricing\<close>

text \<open>
  A cart key is the string of a product id when converting it to an integer and back
  gives the key again, as for every key \<^verbatim>\<open>add_to_cart\<close> writes.
\<close>

definition canonical_key :: "string \<Rightarrow> bool" where
  "canonical_key k = (case py_int k of Inl e \<Rightarrow> False | Inr i \<Rightarrow> str_int i = k)"

text \<open>
  The total as the specification words it: the sum, over the entries of the cart, of
  price times quantity where the entry's product exists and is active, and of zero
  otherwise.
\<close>

definition entry_value :: "catalog \<Rightarrow> string \<times> int \<Rightarrow> rat" where
  "entry_value K e =
     (case find (\<lambda>p. str_int (pid p) = fst e \<and> is_active p) K of
        None \<Rightarrow> 0
      | Some p \<Rightarrow> dec_val (price p) * of_int (snd e))"

definition spec_total :: "catalog \<Rightarrow> cart \<Rightarrow> rat" where
  "spec_total K c = sum_list (map (entry_value K) c)"

text \<open>
  The same sum for any amount \<open>g\<close> a product and a quantity give: \<open>entry_value\<close> is the
  case of price times quantity.
\<close>

definition entry_of :: "(product \<Rightarrow> int \<Rightarrow> rat) \<Rightarrow> catalog \<Rightarrow> string \<times> int \<Rightarrow> rat" where
  "entry_of g K e =
     (case find (\<lambda>p. str_int (pid p) = fst e \<and> is_active p) K of
        None \<Rightarrow> 0
      | Some p \<Rightarrow> g p (snd e))"

section \<open>Sample data\<close>

text \<open>
  The scenario of the specification: product 3 costs 100.00 and is active, product 5
  costs 50.00 and is inactive; the cart holds two of the first and one of the second.
\<close>

definition sample_catalog :: catalog where
  "sample_catalog =
     [\<lparr>pid = 3, name = ''Chair'', price = Decimal 10000 (- 2), is_featured = False,
       is_active = True\<rparr>,
      \<lparr>pid = 5, name = ''Desk'', price = Decimal 5000 (- 2), is_featured = False,
       is_active = False\<rparr>]"

definition sample_cart :: cart where
  "sample_cart = [(''3'', 2), (''5'', 1)]"

text \<open>
  A cart beyond the precision of the context: one product at the highest price the
  field holds, 99999999.99, and the quantity \<open>10 ^ 19 + 1\<close>.
\<close>

definition large_catalog :: catalog where
  "large_catalog =
     [\<lparr>pid = 1, name = ''Gem'', price = Decimal 9999999999 (- 2), is_featured = False,
       is_active = True\<rparr>]"

definition large_cart :: cart where
  "large_cart = [(''1'', 10000000000000000001)]"

definition sample_user :: user where
  "sample_user =
     \<lparr>is_authenticated = True, username = ''asha'', email = ''asha@example.org'',
      full_name = ''Asha Rao''\<rparr>"

text \<open>
  A gateway that names every remote order \<open>order_1\<close>, accepts the signature \<open>good\<close>,
  raises \<^verbatim>\<open>TypeError\<close> for a signature with a character beyond ASCII and rejects every
  other one.
\<close>

fun sample_order_create :: "order_data \<Rightarrow> exn + string" where
  "sample_order_create od = Inr ''order_1''"

fun sample_verify :: "string \<Rightarrow> string \<Rightarrow> string \<Rightarrow> exn option" where
  "sample_verify order_id payment_id signature =
     (if list_ex (\<lambda>c. 127 < (of_char c :: nat)) signature then Some TypeError
      else if signature = ''good'' then None
      else Some SignatureVerificationError)"

fun sample_razorpay :: "string \<Rightarrow> string \<Rightarrow> gateway_client" where
  "sample_razorpay key_id key_secret =
     \<lparr>order_create = sample_order_create, verify_payment_signature = sample_verify\<rparr>"

text \<open>A mail transport that refuses a subject with a line break, as Django's does.\<close>

fun sample_send_mail :: "mail \<Rightarrow> exn option" where
  "sample_send_mail m =
     (if CHR 0x0A \<in> set (subject m) \<or> CHR 0x0D \<in> set (subject m) then Some BadHeaderError
      else None)"

definition sample_config :: config where
  "sample_config =
     \<lparr>RAZORPAY_KEY_ID = ''rzp_test'', RAZORPAY_KEY_SECRET = ''secret'',
      ORDER_NOTIFY_EMAIL = ''shop@example.org'', DEFAULT_FROM_EMAIL = ''no-reply@example.org'',
      razorpay = Some sample_razorpay, send_mail = sample_send_mail, other_url_names = []\<rparr>"

definition sample_pending :: pending_payment where
  "sample_pending =
     \<lparr>customer_name = ''Asha Rao'', customer_email = ''asha@example.org'',
      customer_address = ''1 Main Road'', amount = Decimal 20000 (- 2),
      razorpay_order_id = ''order_1'', pending_username = ''asha''\<rparr>"

definition sample_session :: session where
  "sample_session =
     \<lparr>cart_slot = Some sample_cart, pending_slot = Some (PendingDict sample_pending),
      session_key = Some ''k1'', modified = False\<rparr>"

definition sample_request :: "(string \<rightharpoonup> string) \<Rightarrow> request" where
  "sample_request form =
     \<lparr>http_method = ''POST'', POST = form, user = sample_user, session = sample_session\<rparr>"

text \<open>The same visitor with the cart beyond the precision of the context.\<close>

definition large_request :: "(string \<rightharpoonup> string) \<Rightarrow> request" where
  "large_request form =
     \<lparr>http_method = ''POST'', POST = form, user = sample_user,
      session = sample_session\<lparr>cart_slot := Some large_cart\<rparr>\<rparr>"

definition form_cod :: "string \<rightharpoonup> string" where
  "form_cod = [''payment_method'' \<mapsto> ''cod'']"

definition form_cod_line_break :: "string \<rightharpoonup> string" where
  "form_cod_line_break =
     [''payment_method'' \<mapsto> ''cod'', ''name'' \<mapsto> [CHR ''A'', CHR 0x0A, CHR ''B'']]"

definition form_online :: "string \<rightharpoonup> string" where
  "form_online = [''payment_method'' \<mapsto> ''online'']"

definition form_card :: "string \<rightharpoonup> string" where
  "form_card = [''payment_method'' \<mapsto> ''card'']"

definition form_good_signature :: "string \<rightharpoonup> string" where
  "form_good_signature =
     [''razorpay_order_id'' \<mapsto> ''order_1'', ''razorpay_payment_id'' \<mapsto> ''pay_1'',
      ''razorpay_signature'' \<mapsto> ''good'']"

definition form_bad_signature :: "string \<rightharpoonup> string" where
  "form_bad_signature =
     [''razorpay_order_id'' \<mapsto> ''order_1'', ''razorpay_payment_id'' \<mapsto> ''pay_1'',
      ''razorpay_signature'' \<mapsto> ''forged'']"

definition form_other_order :: "string \<rightharpoonup> string" where
  "form_other_order =
     [''razorpay_order_id'' \<mapsto> ''order_2'', ''razorpay_payment_id'' \<mapsto> ''pay_1'',
      ''razorpay_signature'' \<mapsto> ''good'']"

definition form_quantity :: "string \<Rightarrow> string \<rightharpoonup> string" where
  "form_quantity q = [''quantity'' \<mapsto> q]"

section \<open>Conversions between integers and strings\<close>

lemma of_char_digit_char: "d < 10 \<Longrightarrow> (of_char (digit_char d) :: nat) = 48 + d"
  by (simp add: digit_char_def)

lemma is_digit_digit_char: "d < 10 \<Longrightarrow> is_digit (digit_char d)"
  by (simp add: is_digit_def of_char_digit_char)

lemma digit_val_digit_char: "d < 10 \<Longrightarrow> digit_val (digit_char d) = d"
  by (simp add: digit_val_def of_char_digit_char)

lemma is_digit_not_space: "is_digit c \<Longrightarrow> \<not> is_int_space c"
  by (auto simp: is_digit_def is_int_space_def)

lemma is_digit_not_sign: "is_digit c \<Longrightarrow> c \<noteq> CHR ''+'' \<and> c \<noteq> CHR ''-'' \<and> c \<noteq> CHR ''_''"
  by (auto simp: is_digit_def)

lemma str_nat_digits: "\<forall>c \<in> set (str_nat n). is_digit c"
proof (induction n rule: str_nat.induct)
  case (1 n)
  show ?case
  proof (cases "n < 10")
    case True
    then show ?thesis by (subst str_nat.simps) (simp add: is_digit_digit_char)
  next
    case False
    with 1 show ?thesis by (subst str_nat.simps) (simp add: is_digit_digit_char)
  qed
qed

lemma str_nat_nonempty: "str_nat n \<noteq> []"
  by (subst str_nat.simps) simp

lemma filter_digits_str_nat: "filter is_digit (str_nat n) = str_nat n"
  using str_nat_digits by (simp add: filter_id_conv)

lemma digits_val_all_digits:
  "\<forall>c \<in> set cs. is_digit c \<Longrightarrow>
     digits_val acc cs = Some (foldl (\<lambda>a c. a * 10 + digit_val c) acc cs)"
  by (induction acc cs rule: digits_val.induct) auto

lemma parse_nat_all_digits:
  "cs \<noteq> [] \<Longrightarrow> \<forall>c \<in> set cs. is_digit c \<Longrightarrow> length cs \<le> INT_MAX_STR_DIGITS \<Longrightarrow>
     parse_nat cs = Some (foldl (\<lambda>a c. a * 10 + digit_val c) 0 cs)"
  by (cases cs) (simp_all add: parse_nat_def digits_val_all_digits filter_id_conv)

lemma foldl_str_nat: "foldl (\<lambda>a c. a * 10 + digit_val c) 0 (str_nat n) = n"
proof (induction n rule: str_nat.induct)
  case (1 n)
  show ?case
  proof (cases "n < 10")
    case True
    then show ?thesis by (subst str_nat.simps) (simp add: digit_val_digit_char)
  next
    case False
    with 1 show ?thesis by (subst str_nat.simps) (simp add: digit_val_digit_char)
  qed
qed

lemma str_nat_inj: "str_nat m = str_nat n \<Longrightarrow> m = n"
  by (metis foldl_str_nat)

lemma parse_nat_str_nat:
  "length (str_nat n) \<le> INT_MAX_STR_DIGITS \<Longrightarrow> parse_nat (str_nat n) = Some n"
  by (simp add: parse_nat_all_digits str_nat_nonempty str_nat_digits foldl_str_nat)

lemma dropWhile_hd: "s \<noteq> [] \<Longrightarrow> \<not> P (hd s) \<Longrightarrow> dropWhile P s = s"
  by (cases s) auto

lemma int_strip_id:
  assumes "s \<noteq> []" "\<not> is_int_space (hd s)" "\<not> is_int_space (last s)"
  shows "int_strip s = s"
proof -
  have "dropWhile is_int_space s = s"
    using assms by (simp add: dropWhile_hd)
  moreover have "dropWhile is_int_space (rev s) = rev s"
    using assms by (simp add: dropWhile_hd hd_rev)
  ultimately show ?thesis by (simp add: int_strip_def)
qed

lemma int_strip_str_int: "int_strip (str_int i) = str_int i"
proof -
  let ?s = "str_nat (nat \<bar>i\<bar>)"
  have ne: "?s \<noteq> []" by (rule str_nat_nonempty)
  have "last ?s \<in> set ?s" "hd ?s \<in> set ?s" using ne by simp_all
  then have sp: "\<not> is_int_space (last ?s)" "\<not> is_int_space (hd ?s)"
    using str_nat_digits is_digit_not_space by blast+
  show ?thesis
  proof (cases "i < 0")
    case True
    then have "str_int i = CHR ''-'' # ?s" by (simp add: str_int_def)
    moreover have "int_strip (CHR ''-'' # ?s) = CHR ''-'' # ?s"
      using ne sp by (intro int_strip_id) (simp_all add: is_int_space_def)
    ultimately show ?thesis by simp
  next
    case False
    then have "str_int i = ?s" by (simp add: str_int_def)
    moreover have "int_strip ?s = ?s" using ne sp by (intro int_strip_id)
    ultimately show ?thesis by simp
  qed
qed

text \<open>
  \<^verbatim>\<open>int(str(i))\<close> parses the digits of \<open>i\<close>: it is \<open>i\<close> within the digit limit and
  raises beyond it.
\<close>

lemma py_int_str_int_parse:
  "py_int (str_int i) =
     (case parse_nat (str_nat (nat \<bar>i\<bar>)) of
        None \<Rightarrow> Inl ValueError
      | Some n \<Rightarrow> Inr (if i < 0 then - int n else int n))"
proof (cases "i < 0")
  case True
  then have "str_int i = CHR ''-'' # str_nat (nat \<bar>i\<bar>)" by (simp add: str_int_def)
  with True show ?thesis
    using int_strip_str_int [of i]
    by (simp add: py_int_def split: option.splits)
next
  case False
  let ?s = "str_nat (nat \<bar>i\<bar>)"
  have s: "str_int i = ?s" using False by (simp add: str_int_def)
  obtain c cs where cs: "?s = c # cs" using str_nat_nonempty [of "nat \<bar>i\<bar>"] by (cases ?s) auto
  then have "is_digit c" using str_nat_digits [of "nat \<bar>i\<bar>"] by simp
  then have "c \<noteq> CHR ''+''" "c \<noteq> CHR ''-''" using is_digit_not_sign by auto
  with False s cs show ?thesis
    using int_strip_str_int [of i]
    by (simp add: py_int_def split: option.splits)
qed

lemma py_int_str_int:
  assumes "length (str_nat (nat \<bar>i\<bar>)) \<le> INT_MAX_STR_DIGITS"
  shows "py_int (str_int i) = Inr i"
  using assms by (simp add: py_int_str_int_parse parse_nat_str_nat)

lemma parse_nat_digits:
  "parse_nat s = Some n \<Longrightarrow> length (filter is_digit s) \<le> INT_MAX_STR_DIGITS"
  by (auto simp: parse_nat_def split: list.splits if_splits)

lemma py_int_str_int_limit:
  assumes "py_int (str_int i) = Inr j"
  shows "length (str_nat (nat \<bar>i\<bar>)) \<le> INT_MAX_STR_DIGITS"
proof -
  from assms obtain n where "parse_nat (str_nat (nat \<bar>i\<bar>)) = Some n"
    by (auto simp: py_int_str_int_parse split: option.splits)
  then show ?thesis using parse_nat_digits filter_digits_str_nat by metis
qed

lemma str_int_inj:
  assumes "str_int i = str_int j"
  shows "i = j"
proof -
  have d: "hd (str_nat n) \<noteq> CHR ''-''" for n
    using str_nat_digits [of n] str_nat_nonempty [of n] is_digit_not_sign
    by (metis hd_in_set)
  show ?thesis
  proof (cases "i < 0")
    case True
    show ?thesis
    proof (cases "j < 0")
      case T2: True
      with True assms have "str_nat (nat (- i)) = str_nat (nat (- j))"
        by (simp add: str_int_def)
      then have "nat (- i) = nat (- j)" by (rule str_nat_inj)
      with True T2 show ?thesis by simp
    next
      case False
      with True assms have "CHR ''-'' # str_nat (nat (- i)) = str_nat (nat j)"
        by (simp add: str_int_def)
      then have "hd (str_nat (nat j)) = CHR ''-''" by (metis list.sel(1))
      with d show ?thesis by blast
    qed
  next
    case False
    show ?thesis
    proof (cases "j < 0")
      case True
      with False assms have "str_nat (nat i) = CHR ''-'' # str_nat (nat (- j))"
        by (simp add: str_int_def)
      then have "hd (str_nat (nat i)) = CHR ''-''" by (metis list.sel(1))
      with d show ?thesis by blast
    next
      case F2: False
      with False assms have "str_nat (nat i) = str_nat (nat j)"
        by (simp add: str_int_def)
      then have "nat i = nat j" by (rule str_nat_inj)
      with False F2 show ?thesis by simp
    qed
  qed
qed

lemma py_str_Inr: "py_str i = Inr k \<Longrightarrow> k = str_int i \<and> py_int k = Inr i"
  by (auto simp: py_str_def py_int_str_int split: if_splits)

lemma py_str_canonical: "py_str i = Inr k \<Longrightarrow> canonical_key k"
  by (auto simp: canonical_key_def dest: py_str_Inr)

lemma canonical_keyD: "canonical_key k \<Longrightarrow> \<exists>i. py_int k = Inr i \<and> str_int i = k"
  by (auto simp: canonical_key_def split: sum.splits)

lemma canonical_key_py_str:
  assumes "canonical_key k" and "py_int k = Inr i"
  shows "py_str i = Inr k"
proof -
  from assms have k: "str_int i = k"
    by (auto simp: canonical_key_def)
  with assms(2) have "length (str_nat (nat \<bar>i\<bar>)) \<le> INT_MAX_STR_DIGITS"
    using py_int_str_int_limit by blast
  then show ?thesis using k by (simp add: py_str_def)
qed

section \<open>Decimal arithmetic\<close>

lemma div10_less: "(n::int) < 10 * m \<Longrightarrow> n div 10 < m"
  by presburger

lemma ndigits_le: "n < 10 ^ k \<Longrightarrow> 0 < k \<Longrightarrow> ndigits n \<le> int k"
proof (induction k arbitrary: n)
  case 0
  then show ?case by simp
next
  case (Suc k)
  show ?case
  proof (cases "n < 10")
    case True
    then show ?thesis by (subst ndigits.simps) simp
  next
    case False
    with Suc.prems have k: "0 < k" by (cases k) auto
    from Suc.prems have "n div 10 < 10 ^ k" by (simp add: div10_less)
    then have "ndigits (n div 10) \<le> int k" using k by (rule Suc.IH)
    with False show ?thesis by (subst ndigits.simps) simp
  qed
qed

lemma ndigits_pos: "1 \<le> ndigits n"
proof (induction n rule: ndigits.induct)
  case (1 n)
  then show ?case by (subst ndigits.simps) auto
qed

text \<open>The three ways a number passes the context.\<close>

lemma dec_fix_cases:
  assumes "dec_fix d = Inr x"
  obtains (zero) "coefficient d = 0" "x = Decimal 0 (min (max (exponent d) ETINY) EMAX)"
  | (same) "coefficient d \<noteq> 0" "x = d"
  | (rounded) em m where "coefficient d \<noteq> 0"
      "em = max (ndigits \<bar>coefficient d\<bar> + exponent d - PREC) ETINY" "exponent d < em"
      "m = round_half_even \<bar>coefficient d\<bar> (10 ^ nat (em - exponent d))"
      "x = Decimal (sgn (coefficient d) * (if PREC < ndigits m then m div 10 else m))
                   (if PREC < ndigits m then em + 1 else em)"
proof (cases "coefficient d = 0")
  case True
  with assms have "x = Decimal 0 (min (max (exponent d) ETINY) EMAX)"
    by (simp add: dec_fix_def)
  with True show ?thesis by (rule zero)
next
  case False
  define em where "em = max (ndigits \<bar>coefficient d\<bar> + exponent d - PREC) ETINY"
  define m where "m = round_half_even \<bar>coefficient d\<bar> (10 ^ nat (em - exponent d))"
  have r: "dec_fix d =
     (if ETOP < ndigits \<bar>coefficient d\<bar> + exponent d - PREC then Inl Overflow
      else if exponent d < em then
        (if ETOP < (if PREC < ndigits m then em + 1 else em) then Inl Overflow
         else Inr (Decimal (sgn (coefficient d) * (if PREC < ndigits m then m div 10 else m))
                     (if PREC < ndigits m then em + 1 else em)))
      else Inr d)"
    using False unfolding dec_fix_def Let_def em_def m_def by simp
  show ?thesis
  proof (cases "exponent d < em")
    case True
    with assms r have "x = Decimal (sgn (coefficient d) * (if PREC < ndigits m then m div 10 else m))
                   (if PREC < ndigits m then em + 1 else em)"
      by (simp split: if_splits)
    with False em_def True m_def show ?thesis by (rule rounded)
  next
    case F: False
    with assms r have "x = d" by (simp split: if_splits)
    with False show ?thesis by (rule same)
  qed
qed

text \<open>A coefficient of at most 28 digits at exponent \<open>-2\<close> passes the context unchanged.\<close>

lemma dec_fix_exact:
  assumes "\<bar>c\<bar> < 10 ^ 28"
  shows "dec_fix (Decimal c (- 2)) = Inr (Decimal c (- 2))"
proof (cases "c = 0")
  case True
  then show ?thesis
    by (simp add: dec_fix_def ETINY_def EMAX_def EMIN_def PREC_def)
next
  case False
  have "ndigits \<bar>c\<bar> \<le> 28" using ndigits_le [of "\<bar>c\<bar>" 28] assms by simp
  moreover have "1 \<le> ndigits \<bar>c\<bar>" by (rule ndigits_pos)
  ultimately show ?thesis using False
    by (simp add: dec_fix_def Let_def ETINY_def ETOP_def EMAX_def EMIN_def PREC_def)
qed

lemma dec_mul_int_exact:
  "exponent a = - 2 \<Longrightarrow> \<bar>coefficient a * q\<bar> < 10 ^ 28 \<Longrightarrow>
     dec_mul_int a q = Inr (Decimal (coefficient a * q) (- 2))"
  by (simp add: dec_mul_int_def dec_mul_def dec_of_int_def dec_fix_exact)

lemma dec_add_exact:
  "\<bar>x + y\<bar> < 10 ^ 28 \<Longrightarrow>
     dec_add (Decimal x (- 2)) (Decimal y (- 2)) = Inr (Decimal (x + y) (- 2))"
  by (simp add: dec_add_def dec_fix_exact)

lemma dec_val_cents: "dec_val (Decimal c (- 2)) = of_int c / 100"
  by (simp add: dec_val_def)

lemma dec_val_zero: "dec_val (Decimal 0 e) = 0"
  by (simp add: dec_val_def)

text \<open>
  What the context leaves of a number whose exponent is at least \<open>-2\<close>: the exponent
  does not fall below \<open>-2\<close>.
\<close>

lemma dec_fix_exponent:
  assumes "dec_fix d = Inr x" and "- 2 \<le> exponent d"
  shows "- 2 \<le> exponent x"
  using assms(1)
proof (cases rule: dec_fix_cases)
  case zero
  with assms(2) show ?thesis by (simp add: EMAX_def)
next
  case same
  with assms(2) show ?thesis by simp
next
  case (rounded em m)
  with assms(2) show ?thesis by simp
qed

lemma dec_mul_int_exponent:
  "dec_mul_int a q = Inr x \<Longrightarrow> - 2 \<le> exponent a \<Longrightarrow> - 2 \<le> exponent x"
  by (auto simp: dec_mul_int_def dec_mul_def dec_of_int_def dest: dec_fix_exponent)

lemma dec_add_exponent:
  "dec_add a b = Inr x \<Longrightarrow> - 2 \<le> exponent a \<Longrightarrow> - 2 \<le> exponent b \<Longrightarrow> - 2 \<le> exponent x"
  by (auto simp: dec_add_def Let_def dest: dec_fix_exponent)

text \<open>A decimal without a fractional part: \<^verbatim>\<open>int\<close> and \<^verbatim>\<open>round\<close> agree on it.\<close>

lemma integral_int_round:
  assumes "0 \<le> exponent x \<or> 10 ^ nat (- exponent x) dvd coefficient x"
  shows "dec_int x = dec_round x" and "of_int (dec_int x) = dec_val x"
proof -
  show "dec_int x = dec_round x"
  proof (cases "0 \<le> exponent x")
    case True
    then show ?thesis by (simp add: dec_int_def dec_round_def)
  next
    case False
    with assms obtain k where k: "coefficient x = 10 ^ nat (- exponent x) * k"
      by (auto simp: dvd_def)
    have "sgn (10 ^ nat (- exponent x) * k) * \<bar>k\<bar> = k"
      by (simp add: sgn_mult mult_sgn_abs)
    with False k show ?thesis
      by (simp add: dec_int_def dec_round_def Let_def abs_mult)
  qed
  show "of_int (dec_int x) = dec_val x"
  proof (cases "0 \<le> exponent x")
    case True
    then show ?thesis by (simp add: dec_int_def dec_val_def)
  next
    case False
    with assms obtain k where k: "coefficient x = 10 ^ nat (- exponent x) * k"
      by (auto simp: dvd_def)
    have "sgn (10 ^ nat (- exponent x) * k) * \<bar>k\<bar> = k"
      by (simp add: sgn_mult mult_sgn_abs)
    with False k show ?thesis
      by (simp add: dec_int_def dec_val_def abs_mult)
  qed
qed

lemma round_half_even_exact: "0 < m \<Longrightarrow> round_half_even (a * m) m = a"
  by (simp add: round_half_even_def)

text \<open>
  A total of exponent at least \<open>-2\<close>, times 100, has no fractional part, whether or not
  the context rounds the product.
\<close>

lemma times_100_integral:
  assumes "dec_mul_int t 100 = Inr x" and "- 2 \<le> exponent t"
  shows "0 \<le> exponent x \<or> 10 ^ nat (- exponent x) dvd coefficient x"
proof -
  let ?d = "Decimal (coefficient t * 100) (exponent t)"
  from assms(1) have f: "dec_fix ?d = Inr x"
    by (simp add: dec_mul_int_def dec_mul_def dec_of_int_def)
  from f show ?thesis
  proof (cases rule: dec_fix_cases)
    case zero
    then show ?thesis by simp
  next
    case same
    have "exponent t = - 2 \<or> exponent t = - 1 \<or> 0 \<le> exponent t"
      using assms(2) by arith
    with same show ?thesis by auto
  next
    case (rounded em m)
    show ?thesis
    proof (cases "0 \<le> exponent x")
      case True
      then show ?thesis by simp
    next
      case False
      with rounded(3,5) assms(2) have em: "em = - 1" and e: "exponent t = - 2"
        and nl: "\<not> PREC < ndigits m"
        by (auto split: if_splits)
      have "m = \<bar>coefficient t\<bar> * 10"
        using round_half_even_exact [of 10 "\<bar>coefficient t\<bar> * 10"] rounded(4)
        by (simp add: em e abs_mult mult.assoc)
      with rounded(5) nl em
      have "coefficient x = sgn (coefficient t * 100) * (\<bar>coefficient t\<bar> * 10)"
        "exponent x = - 1"
        by simp_all
      then show ?thesis by simp
    qed
  qed
qed

section \<open>Pricing the cart\<close>

lemma int_keys_canonical:
  "\<forall>k \<in> set ks. canonical_key k \<Longrightarrow>
     \<exists>ids. int_keys ks = Inr ids \<and> (\<forall>i. i \<in> set ids \<longleftrightarrow> str_int i \<in> set ks)"
proof (induction ks)
  case Nil
  then show ?case by simp
next
  case (Cons k ks)
  then obtain ids where ids: "int_keys ks = Inr ids" "\<forall>i. i \<in> set ids \<longleftrightarrow> str_int i \<in> set ks"
    by auto
  from Cons.prems obtain j where j: "py_int k = Inr j" "str_int j = k"
    using canonical_keyD by auto
  have "i = j \<longleftrightarrow> str_int i = k" for i
    using j str_int_inj by auto
  with ids j show ?case by auto
qed

lemma canonical_member_py_str:
  assumes "\<forall>k \<in> set ks. canonical_key k" and "str_int i \<in> set ks"
  shows "py_str i = Inr (str_int i)"
proof -
  from assms have c: "canonical_key (str_int i)" by blast
  then obtain j where j: "py_int (str_int i) = Inr j" "str_int j = str_int i"
    using canonical_keyD by blast
  then have "j = i" using str_int_inj by blast
  with c j show ?thesis using canonical_key_py_str by blast
qed

lemma sum_list_no_key:
  "k \<notin> fst ` set c \<Longrightarrow>
     sum_list (map (\<lambda>e. if fst e = k then f e else g e) c) = sum_list (map g c)"
  by (induction c) auto

lemma sum_list_one_key:
  fixes f g :: "'k \<times> 'v \<Rightarrow> rat"
  assumes "distinct (map fst c)"
  shows "sum_list (map (\<lambda>e. if fst e = k then f e else g e) c) =
           sum_list (map g c) + (case map_of c k of None \<Rightarrow> 0 | Some q \<Rightarrow> f (k, q) - g (k, q))"
  using assms
proof (induction c)
  case Nil
  then show ?case by simp
next
  case (Cons e c)
  show ?case
  proof (cases "fst e = k")
    case True
    with Cons.prems have "k \<notin> fst ` set c" by auto
    then have "sum_list (map (\<lambda>e. if fst e = k then f e else g e) c) = sum_list (map g c)"
      by (rule sum_list_no_key)
    with True show ?thesis by (cases e) simp
  next
    case False
    with Cons show ?thesis by (cases e) simp
  qed
qed

lemma entry_of_Cons:
  "entry_of g (p # K) e =
     (if fst e = str_int (pid p) \<and> is_active p then g p (snd e) else entry_of g K e)"
  by (auto simp: entry_of_def)

lemma entry_of_absent:
  "i \<notin> pid ` set K \<Longrightarrow> entry_of g K (str_int i, q) = 0"
proof -
  assume "i \<notin> pid ` set K"
  then have "find (\<lambda>p. str_int (pid p) = str_int i \<and> is_active p) K = None"
    by (auto simp: find_None_iff dest: str_int_inj)
  then show ?thesis by (simp add: entry_of_def)
qed

text \<open>
  The sum over the active products the cart names, in catalog order, is the sum over the
  entries of the cart.
\<close>

lemma entry_sum:
  assumes "distinct (map fst c)" "distinct (map pid K)"
  shows "sum_list (map (\<lambda>p. g p (cart_get c (str_int (pid p)) 0))
             (filter (\<lambda>p. str_int (pid p) \<in> fst ` set c \<and> is_active p) K))
         = sum_list (map (entry_of g K) c)"
  using assms(2)
proof (induction K)
  case Nil
  have "entry_of g [] = (\<lambda>e. 0)"
    by (simp add: entry_of_def fun_eq_iff)
  then show ?case by simp
next
  case (Cons p K)
  then have IH: "sum_list (map (\<lambda>p. g p (cart_get c (str_int (pid p)) 0))
             (filter (\<lambda>p. str_int (pid p) \<in> fst ` set c \<and> is_active p) K))
           = sum_list (map (entry_of g K) c)"
    and fresh: "pid p \<notin> pid ` set K" by auto
  show ?case
  proof (cases "is_active p")
    case False
    then have "entry_of g (p # K) = entry_of g K"
      by (auto simp: entry_of_Cons)
    with False IH show ?thesis by simp
  next
    case True
    have "sum_list (map (entry_of g (p # K)) c) =
            sum_list (map (\<lambda>e. if fst e = str_int (pid p)
                                then g p (snd e) else entry_of g K e) c)"
    proof -
      have "entry_of g (p # K) = (\<lambda>e. if fst e = str_int (pid p)
                                then g p (snd e) else entry_of g K e)"
        using True by (simp add: entry_of_Cons fun_eq_iff)
      then show ?thesis by simp
    qed
    also have "\<dots> = sum_list (map (entry_of g K) c) +
        (case map_of c (str_int (pid p)) of None \<Rightarrow> 0
         | Some q \<Rightarrow> g p (snd (str_int (pid p), q)) - entry_of g K (str_int (pid p), q))"
      using assms(1) by (rule sum_list_one_key)
    also have "\<dots> = sum_list (map (entry_of g K) c) +
        (case map_of c (str_int (pid p)) of None \<Rightarrow> 0 | Some q \<Rightarrow> g p q)"
      using fresh by (simp add: entry_of_absent split: option.splits)
    finally have R: "sum_list (map (entry_of g (p # K)) c) = sum_list (map (entry_of g K) c) +
        (case map_of c (str_int (pid p)) of None \<Rightarrow> 0 | Some q \<Rightarrow> g p q)" .
    show ?thesis
    proof (cases "map_of c (str_int (pid p))")
      case None
      then have "str_int (pid p) \<notin> fst ` set c" by (simp add: map_of_eq_None_iff)
      with None R IH show ?thesis by simp
    next
      case (Some q)
      then have "str_int (pid p) \<in> fst ` set c" by (metis map_of_eq_None_iff option.distinct(1))
      with Some R IH True show ?thesis by (simp add: cart_get_def)
    qed
  qed
qed

lemma entry_value_entry_of:
  "entry_value K = entry_of (\<lambda>p q. dec_val (price p) * of_int q) K"
  by (simp add: entry_value_def entry_of_def fun_eq_iff)

lemma abs_entry_value:
  "\<bar>entry_value K e\<bar> = entry_of (\<lambda>p q. \<bar>dec_val (price p) * of_int q\<bar>) K e"
  by (simp add: entry_value_def entry_of_def split: option.splits)

text \<open>
  The loop when nothing is rounded: the prices have exponent \<open>-2\<close>, the keys convert,
  and the amounts, in hundredths, add up to less than \<open>10 ^ 28\<close> in absolute value.
\<close>

lemma price_loop_exact:
  assumes "\<forall>p \<in> set ps. exponent (price p) = - 2 \<and> py_str (pid p) = Inr (str_int (pid p))"
    and "\<bar>t\<bar> + sum_list (map (\<lambda>p. \<bar>coefficient (price p) * cart_get c (str_int (pid p)) 0\<bar>) ps)
           < 10 ^ 28"
  shows "price_loop c ps items (Decimal t (- 2)) =
     Inr (items @ map (\<lambda>p. \<lparr>product = p, quantity = cart_get c (str_int (pid p)) 0,
                             line_total = Decimal (coefficient (price p)
                                                   * cart_get c (str_int (pid p)) 0) (- 2)\<rparr>) ps,
          Decimal (t + sum_list (map (\<lambda>p. coefficient (price p)
                                           * cart_get c (str_int (pid p)) 0) ps)) (- 2))"
  using assms
proof (induction ps arbitrary: items t)
  case Nil
  then show ?case by simp
next
  case (Cons p ps)
  let ?q = "cart_get c (str_int (pid p)) 0"
  let ?l = "coefficient (price p) * ?q"
  have sn: "0 \<le> sum_list (map (\<lambda>p. \<bar>coefficient (price p) * cart_get c (str_int (pid p)) 0\<bar>) ps)"
    by (rule sum_list_nonneg) auto
  from Cons.prems(1) have e: "exponent (price p) = - 2" and k: "py_str (pid p) = Inr (str_int (pid p))"
    by simp_all
  from Cons.prems(2) sn have b1: "\<bar>?l\<bar> < 10 ^ 28" and b2: "\<bar>t + ?l\<bar> < 10 ^ 28"
    and b3: "\<bar>t + ?l\<bar> + sum_list (map (\<lambda>p. \<bar>coefficient (price p)
                 * cart_get c (str_int (pid p)) 0\<bar>) ps) < 10 ^ 28"
    by simp_all
  have m: "dec_mul_int (price p) ?q = Inr (Decimal ?l (- 2))"
    using e b1 by (rule dec_mul_int_exact)
  have a: "dec_add (Decimal t (- 2)) (Decimal ?l (- 2)) = Inr (Decimal (t + ?l) (- 2))"
    using b2 by (rule dec_add_exact)
  have r: "\<forall>p \<in> set ps. exponent (price p) = - 2 \<and> py_str (pid p) = Inr (str_int (pid p))"
    using Cons.prems(1) by simp
  show ?case
    using Cons.IH [OF r b3] k m a by (simp add: Let_def add.assoc)
qed

text \<open>Whatever is rounded, the exponent of the total does not fall below \<open>-2\<close>.\<close>

lemma price_loop_exponent:
  assumes "price_loop c ps items tot = Inr (its, t)"
    and "- 2 \<le> exponent tot" and "\<forall>p \<in> set ps. - 2 \<le> exponent (price p)"
  shows "- 2 \<le> exponent t"
  using assms
proof (induction ps arbitrary: items tot)
  case Nil
  then show ?case by simp
next
  case (Cons p ps)
  from Cons.prems(1) obtain key lt tot' where
    m: "dec_mul_int (price p) (cart_get c key 0) = Inr lt"
    and a: "dec_add tot lt = Inr tot'"
    and r: "price_loop c ps (items @ [\<lparr>product = p, quantity = cart_get c key 0,
                                         line_total = lt\<rparr>]) tot' = Inr (its, t)"
    by (auto simp: Let_def split: sum.splits)
  from m Cons.prems(3) have "- 2 \<le> exponent lt" by (auto dest: dec_mul_int_exponent)
  with a Cons.prems(2) have "- 2 \<le> exponent tot'" by (auto dest: dec_add_exponent)
  with r Cons.prems(3) show ?case using Cons.IH by auto
qed

lemma build_cart_items_exponent:
  assumes "\<forall>p \<in> set K. exponent (price p) = - 2"
    and "build_cart_items K c = Inr (items, tot)"
  shows "- 2 \<le> exponent tot"
proof (cases "c = []")
  case True
  with assms(2) show ?thesis by (auto simp: build_cart_items_def)
next
  case False
  with assms(2) obtain ids where
    r: "price_loop c (filter_active_in K ids) [] (Decimal 0 (- 2)) = Inr (items, tot)"
    by (auto simp: build_cart_items_def split: sum.splits)
  have "\<forall>p \<in> set (filter_active_in K ids). - 2 \<le> exponent (price p)"
    using assms(1) by (simp add: filter_active_in_def)
  with r show ?thesis by (intro price_loop_exponent [OF r]) simp_all
qed

lemma sum_list_cents:
  "sum_list (map (\<lambda>x. (of_int (f x) :: rat) / 100) xs) = of_int (sum_list (map f xs)) / 100"
  by (induction xs) (simp_all add: add_divide_distrib)

text \<open>
  Claim C1, as amended.  For a cart whose keys are the strings of product ids (a dict, so
  the keys are distinct), a catalog whose ids are distinct (the primary key) and whose
  prices have two decimal places, and priced entries that add up, in absolute value, to
  less than \<open>10 ^ 26\<close>, so that no line total and no running total needs more than the
  28 digits of the context: \<^verbatim>\<open>_build_cart_items\<close> returns without raising; its total
  is the sum, over the cart's entries, of price times quantity for the entries whose
  product exists and is active, the other entries counting zero; its items are exactly
  the active products of the catalog that the cart names, in catalog order, each with the
  cart's quantity and its line total; and the empty cart gives no items and the total
  0.00.
\<close>

theorem build_cart_items_total:
  assumes "distinct (map fst c)"
    and "\<forall>k \<in> set (map fst c). canonical_key k"
    and "distinct (map pid K)"
    and "\<forall>p \<in> set K. exponent (price p) = - 2"
    and "sum_list (map (\<lambda>e. \<bar>entry_value K e\<bar>) c) < 10 ^ 26"
  shows "\<exists>items tot. build_cart_items K c = Inr (items, tot)
           \<and> dec_val tot = spec_total K c
           \<and> map product items = filter (\<lambda>p. str_int (pid p) \<in> fst ` set c \<and> is_active p) K
           \<and> (\<forall>it \<in> set items.
                 map_of c (str_int (pid (product it))) = Some (quantity it)
                 \<and> dec_mul_int (price (product it)) (quantity it) = Inr (line_total it))
           \<and> (c = [] \<longrightarrow> items = [] \<and> tot = Decimal 0 (- 2))"
proof (cases "c = []")
  case True
  then show ?thesis
    by (simp add: build_cart_items_def spec_total_def dec_val_zero)
next
  case False
  from assms(2) obtain ids where ids: "int_keys (map fst c) = Inr ids"
    "\<forall>i. i \<in> set ids \<longleftrightarrow> str_int i \<in> set (map fst c)"
    using int_keys_canonical by blast
  let ?ps = "filter (\<lambda>p. str_int (pid p) \<in> fst ` set c \<and> is_active p) K"
  let ?q = "\<lambda>p. cart_get c (str_int (pid p)) 0"
  have ps: "filter_active_in K ids = ?ps"
    using ids(2) by (simp add: filter_active_in_def)
  have cents: "dec_val (price p) = of_int (coefficient (price p)) / 100" if "p \<in> set K" for p
  proof -
    have "exponent (price p) = - 2" using assms(4) that by blast
    then have "price p = Decimal (coefficient (price p)) (- 2)"
      by (metis decimal.collapse)
    then show ?thesis using dec_val_cents by metis
  qed
  have "sum_list (map (\<lambda>p. \<bar>dec_val (price p) * of_int (?q p)\<bar>) ?ps)
          = sum_list (map (\<lambda>e. \<bar>entry_value K e\<bar>) c)"
    using entry_sum [OF assms(1) assms(3), of "\<lambda>p q. \<bar>dec_val (price p) * of_int q\<bar>"]
    by (simp add: abs_entry_value)
  moreover have "sum_list (map (\<lambda>p. \<bar>dec_val (price p) * of_int (?q p)\<bar>) ?ps)
          = of_int (sum_list (map (\<lambda>p. \<bar>coefficient (price p) * ?q p\<bar>) ?ps)) / 100"
  proof -
    have "sum_list (map (\<lambda>p. \<bar>dec_val (price p) * of_int (?q p)\<bar>) ?ps)
          = sum_list (map (\<lambda>p. of_int \<bar>coefficient (price p) * ?q p\<bar> / 100) ?ps)"
      by (rule arg_cong [where f = sum_list], rule map_cong)
         (auto simp: cents abs_mult)
    also have "\<dots> = of_int (sum_list (map (\<lambda>p. \<bar>coefficient (price p) * ?q p\<bar>) ?ps)) / 100"
      by (rule sum_list_cents)
    finally show ?thesis .
  qed
  ultimately have "(of_int (sum_list (map (\<lambda>p. \<bar>coefficient (price p) * ?q p\<bar>) ?ps)) :: rat)
                     < 10 ^ 28"
    using assms(5) by simp
  then have bound: "\<bar>0\<bar> + sum_list (map (\<lambda>p. \<bar>coefficient (price p) * ?q p\<bar>) ?ps) < 10 ^ 28"
    by (metis (no_types, lifting) abs_zero add_0 of_int_less_iff of_int_numeral of_int_power)
  have conv: "\<forall>p \<in> set ?ps. exponent (price p) = - 2 \<and> py_str (pid p) = Inr (str_int (pid p))"
    using assms(2,4) canonical_member_py_str [of "map fst c"] by auto
  let ?items = "map (\<lambda>p. \<lparr>product = p, quantity = ?q p,
                          line_total = Decimal (coefficient (price p) * ?q p) (- 2)\<rparr>) ?ps"
  let ?tot = "Decimal (sum_list (map (\<lambda>p. coefficient (price p) * ?q p) ?ps)) (- 2)"
  have loop: "price_loop c ?ps [] (Decimal 0 (- 2)) = Inr (?items, ?tot)"
    using price_loop_exact [OF conv bound, of "[]"] by simp
  have b: "build_cart_items K c = Inr (?items, ?tot)"
    using False ids(1) ps loop by (simp add: build_cart_items_def)
  have "dec_val ?tot = sum_list (map (\<lambda>p. dec_val (price p) * of_int (?q p)) ?ps)"
  proof -
    have "sum_list (map (\<lambda>p. dec_val (price p) * of_int (?q p)) ?ps)
          = sum_list (map (\<lambda>p. of_int (coefficient (price p) * ?q p) / 100) ?ps)"
      by (rule arg_cong [where f = sum_list], rule map_cong) (auto simp: cents)
    also have "\<dots> = of_int (sum_list (map (\<lambda>p. coefficient (price p) * ?q p) ?ps)) / 100"
      by (rule sum_list_cents)
    finally show ?thesis by (simp add: dec_val_cents)
  qed
  also have "\<dots> = spec_total K c"
    using entry_sum [OF assms(1) assms(3), of "\<lambda>p q. dec_val (price p) * of_int q"]
    by (simp add: spec_total_def entry_value_entry_of)
  finally have t: "dec_val ?tot = spec_total K c" .
  have p: "map product ?items = ?ps"
    by (simp add: comp_def)
  have q: "map_of c (str_int (pid (product it))) = Some (quantity it)
           \<and> dec_mul_int (price (product it)) (quantity it) = Inr (line_total it)"
    if "it \<in> set ?items" for it
  proof -
    from that obtain p where pp: "p \<in> set ?ps" and it: "it = \<lparr>product = p, quantity = ?q p,
                          line_total = Decimal (coefficient (price p) * ?q p) (- 2)\<rparr>"
      by auto
    from pp have "str_int (pid p) \<in> fst ` set c" by simp
    then obtain v where v: "map_of c (str_int (pid p)) = Some v"
      by (metis map_of_eq_None_iff not_Some_eq)
    have "\<bar>coefficient (price p) * ?q p\<bar>
            \<le> sum_list (map (\<lambda>p. \<bar>coefficient (price p) * ?q p\<bar>) ?ps)"
      using pp by (intro member_le_sum_list) auto
    with bound have "\<bar>coefficient (price p) * ?q p\<bar> < 10 ^ 28" by simp
    moreover have "exponent (price p) = - 2" using pp assms(4) by simp
    ultimately have "dec_mul_int (price p) (?q p) = Inr (Decimal (coefficient (price p) * ?q p) (- 2))"
      by (intro dec_mul_int_exact)
    with v it show ?thesis by (simp add: cart_get_def)
  qed
  from b t p q False show ?thesis by blast
qed

lemma sample_priced:
  "build_cart_items sample_catalog sample_cart =
     Inr ([\<lparr>product = hd sample_catalog, quantity = 2, line_total = Decimal 20000 (- 2)\<rparr>],
          Decimal 20000 (- 2))"
  by code_simp

theorem build_cart_items_total_witness:
  "canonical_key ''3'' \<and> canonical_key ''5''
   \<and> distinct (map fst sample_cart) \<and> distinct (map pid sample_catalog)
   \<and> exponent (price (hd sample_catalog)) = - 2 \<and> exponent (price (last sample_catalog)) = - 2
   \<and> sum_list (map (\<lambda>e. \<bar>entry_value sample_catalog e\<bar>) sample_cart) = 200
   \<and> build_cart_items sample_catalog sample_cart =
       Inr ([\<lparr>product = hd sample_catalog, quantity = 2, line_total = Decimal 20000 (- 2)\<rparr>],
            Decimal 20000 (- 2))
   \<and> spec_total sample_catalog sample_cart = 200"
proof -
  have k: "canonical_key ''3''" "canonical_key ''5''" by code_simp+
  have d: "distinct (map fst sample_cart)" "distinct (map pid sample_catalog)"
    by (simp_all add: sample_cart_def sample_catalog_def)
  have ks: "\<forall>k \<in> set (map fst sample_cart). canonical_key k"
    using k by (simp add: sample_cart_def)
  have e: "exponent (price (hd sample_catalog)) = - 2" "exponent (price (last sample_catalog)) = - 2"
    by (simp_all add: sample_catalog_def)
  have es: "\<forall>p \<in> set sample_catalog. exponent (price p) = - 2"
    by (simp add: sample_catalog_def)
  have s3: "str_int 3 = ''3''" and s5: "str_int 5 = ''5''" by code_simp+
  have ev: "entry_value sample_catalog (''3'', 2) = 200" "entry_value sample_catalog (''5'', 1) = 0"
    by (simp_all add: entry_value_def sample_catalog_def s3 s5 dec_val_def)
  have a: "sum_list (map (\<lambda>e. \<bar>entry_value sample_catalog e\<bar>) sample_cart) = 200"
    by (simp add: sample_cart_def ev)
  then have bd: "sum_list (map (\<lambda>e. \<bar>entry_value sample_catalog e\<bar>) sample_cart) < 10 ^ 26"
    by simp
  have v: "dec_val (Decimal 20000 (- 2)) = 200" by (simp add: dec_val_def)
  from build_cart_items_total [OF d(1) ks d(2) es bd] sample_priced v
  have "spec_total sample_catalog sample_cart = 200" by auto
  with k d e a sample_priced show ?thesis by simp
qed

text \<open>
  Claim C1 as stated, for every cart, fails: the cart that holds \<open>10 ^ 19 + 1\<close> of a
  product priced 99999999.99 has a line total of 29 digits, which the context rounds to
  28, so the total returned is 999999999900000000100000000.0 and not the sum
  999999999900000000099999999.99.
\<close>

theorem exact_total_counterexample:
  "distinct (map fst large_cart) \<and> canonical_key ''1'' \<and> distinct (map pid large_catalog)
   \<and> build_cart_items large_catalog large_cart =
       Inr ([\<lparr>product = hd large_catalog, quantity = 10000000000000000001,
              line_total = Decimal 9999999999000000001000000000 (- 1)\<rparr>],
            Decimal 9999999999000000001000000000 (- 1))
   \<and> dec_val (Decimal 9999999999000000001000000000 (- 1)) = 999999999900000000100000000
   \<and> spec_total large_catalog large_cart = 99999999990000000009999999999 / 100
   \<and> dec_val (Decimal 9999999999000000001000000000 (- 1)) \<noteq> spec_total large_catalog large_cart"
proof -
  have k: "canonical_key ''1''" by code_simp
  have d: "distinct (map fst large_cart)" "distinct (map pid large_catalog)"
    by (simp_all add: large_cart_def large_catalog_def)
  have b: "build_cart_items large_catalog large_cart =
       Inr ([\<lparr>product = hd large_catalog, quantity = 10000000000000000001,
              line_total = Decimal 9999999999000000001000000000 (- 1)\<rparr>],
            Decimal 9999999999000000001000000000 (- 1))"
    by code_simp
  have v: "dec_val (Decimal 9999999999000000001000000000 (- 1)) = 999999999900000000100000000"
    by (simp add: dec_val_def)
  have s1: "str_int 1 = ''1''" by code_simp
  have s: "spec_total large_catalog large_cart = 99999999990000000009999999999 / 100"
    by (simp add: spec_total_def large_cart_def entry_value_def large_catalog_def s1 dec_val_def)
  have "(999999999900000000100000000 :: rat) \<noteq> 99999999990000000009999999999 / 100"
    by simp
  with k d b v s show ?thesis by simp
qed

section \<open>Payment verification\<close>

lemma payment_label_cod: "payment_label ''cod'' = ''Cash on Delivery''"
  by (simp add: payment_label_def PAYMENT_METHODS_def)

lemma payment_label_online:
  "payment_label ''online'' = ''Online Payment (UPI / Debit Card / Credit Card)''"
  by (simp add: payment_label_def PAYMENT_METHODS_def)

lemma payment_methods_keys: "m \<in> fst ` set PAYMENT_METHODS \<longleftrightarrow> m = ''cod'' \<or> m = ''online''"
  by (auto simp: PAYMENT_METHODS_def)


lemma send_order_notification_unset:
  "ORDER_NOTIFY_EMAIL cfg = [] \<Longrightarrow> send_order_notification cfg n = Inr ()"
  by (cases n) (simp add: send_order_notification_def)

text \<open>The verdicts of \<^verbatim>\<open>payment_verify\<close> on a session that holds a pending payment.\<close>

lemma payment_verify_mismatch:
  assumes "is_authenticated (user req)" "http_method req = ''POST''"
    and "get_razorpay_client cfg = Some client"
    and "pending_slot (session req) = Some (PendingDict pending)"
    and "form_get (POST req) ''razorpay_order_id'' [] \<noteq> razorpay_order_id pending"
  shows "payment_verify cfg req =
           Inr (respond req (Redirect ''checkout'')
                  [(MsgError, ''Order mismatch detected. Please try checkout again.'')])"
  using assms by (simp add: payment_verify_def Let_def)

lemma payment_verify_bad_signature:
  assumes "is_authenticated (user req)" "http_method req = ''POST''"
    and "get_razorpay_client cfg = Some client"
    and "pending_slot (session req) = Some (PendingDict pending)"
    and "form_get (POST req) ''razorpay_order_id'' [] = razorpay_order_id pending"
    and "verify_payment_signature client (form_get (POST req) ''razorpay_order_id'' [])
            (form_get (POST req) ''razorpay_payment_id'' [])
            (form_get (POST req) ''razorpay_signature'' []) = Some SignatureVerificationError"
  shows "payment_verify cfg req =
           Inr (respond req (RenderPaymentFailed ''Payment signature verification failed.'') [])"
  using assms by (simp add: payment_verify_def Let_def)



lemma payment_verify_success:
  assumes "is_authenticated (user req)" "http_method req = ''POST''"
    and "get_razorpay_client cfg = Some client"
    and "pending_slot (session req) = Some (PendingDict pending)"
    and "form_get (POST req) ''razorpay_order_id'' [] = razorpay_order_id pending"
    and "verify_payment_signature client (form_get (POST req) ''razorpay_order_id'' [])
            (form_get (POST req) ''razorpay_payment_id'' [])
            (form_get (POST req) ''razorpay_signature'' []) = None"
    and "send_order_notification cfg
           (NotifyCall (str_or (customer_name pending) (username (user req)))
              (customer_email pending) (amount pending) (payment_label ''online'')
              (form_get (POST req) ''razorpay_payment_id'' []) (pending_username pending))
         = Inr ()"
  shows "payment_verify cfg req =
           Inr \<lparr>response = RenderCheckoutSuccess
                             (str_or (customer_name pending) (username (user req)))
                             (amount pending) (payment_label ''online'')
                             (Some (form_get (POST req) ''razorpay_payment_id'' [])),
                session_after = (session req)
                  \<lparr>cart_slot := Some [], pending_slot := Some EmptyDict, modified := True\<rparr>,
                flash = [],
                notifications =
                  [NotifyCall (str_or (customer_name pending) (username (user req)))
                     (customer_email pending) (amount pending) (payment_label ''online'')
                     (form_get (POST req) ''razorpay_payment_id'' [])
                     (pending_username pending)],
                orders = [],
                saved_address = None\<rparr>"
  using assms by (simp add: payment_verify_def Let_def)

text \<open>
  Every request is on the success path, or is answered without touching the session, or
  ends in an exception.
\<close>

lemma payment_verify_cases:
  "(\<exists>client pending.
       is_authenticated (user req) \<and> http_method req = ''POST''
       \<and> get_razorpay_client cfg = Some client
       \<and> pending_slot (session req) = Some (PendingDict pending)
       \<and> form_get (POST req) ''razorpay_order_id'' [] = razorpay_order_id pending
       \<and> verify_payment_signature client (form_get (POST req) ''razorpay_order_id'' [])
            (form_get (POST req) ''razorpay_payment_id'' [])
            (form_get (POST req) ''razorpay_signature'' []) = None
       \<and> send_order_notification cfg
           (NotifyCall (str_or (customer_name pending) (username (user req)))
              (customer_email pending) (amount pending) (payment_label ''online'')
              (form_get (POST req) ''razorpay_payment_id'' []) (pending_username pending))
         = Inr ())
   \<or> (\<exists>r msgs. payment_verify cfg req = Inr (respond req r msgs)
         \<and> (\<forall>n t l p. r \<noteq> RenderCheckoutSuccess n t l p))
   \<or> (\<exists>e. payment_verify cfg req = Inl e)"
  by (auto simp: payment_verify_def Let_def split: option.splits pending_value.splits sum.splits)

lemma sample_hyps:
  "is_authenticated (user (sample_request f))"
  "http_method (sample_request f) = ''POST''"
  "get_razorpay_client sample_config = Some (sample_razorpay ''rzp_test'' ''secret'')"
  "pending_slot (session (sample_request f)) = Some (PendingDict sample_pending)"
  "POST (sample_request f) = f"
  "session (sample_request f) = sample_session"
  "pending_slot sample_session = Some (PendingDict sample_pending)"
  "cart_slot sample_session = Some sample_cart"
  "razorpay_order_id sample_pending = ''order_1''"
  by (simp_all add: sample_request_def sample_user_def sample_config_def
        get_razorpay_client_def sample_session_def sample_pending_def)

lemma sample_forms:
  "form_get form_good_signature ''razorpay_order_id'' [] = ''order_1''"
  "form_get form_good_signature ''razorpay_payment_id'' [] = ''pay_1''"
  "form_get form_good_signature ''razorpay_signature'' [] = ''good''"
  "form_get form_bad_signature ''razorpay_order_id'' [] = ''order_1''"
  "form_get form_bad_signature ''razorpay_payment_id'' [] = ''pay_1''"
  "form_get form_bad_signature ''razorpay_signature'' [] = ''forged''"
  "form_get form_other_order ''razorpay_order_id'' [] = ''order_2''"
  by (simp_all add: form_get_def form_good_signature_def form_bad_signature_def
        form_other_order_def)

lemma sample_verdicts:
  "sample_verify ''order_1'' ''pay_1'' ''good'' = None"
  "sample_verify ''order_1'' ''pay_1'' ''forged'' = Some SignatureVerificationError"
  by simp_all

lemma sample_notifier:
  "send_order_notification sample_config
     (NotifyCall ''Asha Rao'' ''asha@example.org'' (Decimal 20000 (- 2)) l p u) = Inr ()"
  by (simp add: send_order_notification_def sample_config_def)

lemma sample_pending_fields:
  "customer_name sample_pending = ''Asha Rao''"
  "customer_email sample_pending = ''asha@example.org''"
  "amount sample_pending = Decimal 20000 (- 2)"
  "pending_username sample_pending = ''asha''"
  by (simp_all add: sample_pending_def)



text \<open>
  Claim C3.  On a session that holds a pending payment, a submitted remote order id that
  differs from the stored one leaves the whole session as it was (pending payment and
  cart included), notifies nobody, and for an authenticated POST redirects to the
  checkout with one error message, the order-mismatch message when the gateway is
  configured.
\<close>

theorem payment_verify_order_mismatch:
  assumes "pending_slot (session req) = Some (PendingDict pending)"
    and "form_get (POST req) ''razorpay_order_id'' [] \<noteq> razorpay_order_id pending"
  shows "\<exists>out. payment_verify cfg req = Inr out
     \<and> session_after out = session req
     \<and> pending_slot (session_after out) = Some (PendingDict pending)
     \<and> cart_slot (session_after out) = cart_slot (session req)
     \<and> notifications out = []
     \<and> mails_sent cfg out = []
     \<and> (is_authenticated (user req) \<and> http_method req = ''POST''
          \<longrightarrow> response out = Redirect ''checkout'' \<and> (\<exists>m. flash out = [(MsgError, m)]))
     \<and> (is_authenticated (user req) \<and> http_method req = ''POST''
          \<and> get_razorpay_client cfg \<noteq> None
          \<longrightarrow> flash out = [(MsgError, ''Order mismatch detected. Please try checkout again.'')])"
  using assms
  by (auto simp: payment_verify_def Let_def respond_def mails_sent_def split: option.splits)

theorem payment_verify_order_mismatch_witness:
  "pending_slot (session (sample_request form_other_order)) = Some (PendingDict sample_pending)
   \<and> form_get (POST (sample_request form_other_order)) ''razorpay_order_id'' []
       \<noteq> razorpay_order_id sample_pending
   \<and> (\<exists>out. payment_verify sample_config (sample_request form_other_order) = Inr out
         \<and> session_after out = sample_session
         \<and> notifications out = []
         \<and> response out = Redirect ''checkout''
         \<and> flash out = [(MsgError, ''Order mismatch detected. Please try checkout again.'')])"
proof -
  have h: "form_get (POST (sample_request form_other_order)) ''razorpay_order_id'' []
       \<noteq> razorpay_order_id sample_pending"
    by (simp add: sample_hyps sample_forms)
  have c: "get_razorpay_client sample_config \<noteq> None" by (simp add: sample_hyps)
  from payment_verify_order_mismatch [OF sample_hyps(4) h, of sample_config]
  have "\<exists>out. payment_verify sample_config (sample_request form_other_order) = Inr out
         \<and> session_after out = sample_session
         \<and> notifications out = []
         \<and> response out = Redirect ''checkout''
         \<and> flash out = [(MsgError, ''Order mismatch detected. Please try checkout again.'')]"
    using c by (auto simp: sample_hyps)
  with h sample_hyps(4) show ?thesis by blast
qed

text \<open>
  Claim C4, as amended.  When a verification request on a session with a pending payment
  returns, the pending payment is either cleared or as it was, and it is cleared exactly
  on the success path (authenticated POST, gateway configured, matching order id,
  signature accepted).  The order-mismatch path and the signature-failure path both
  return and leave it in place; the success path returns, with the record cleared,
  when the notifier's call returns.
\<close>

theorem pending_cleared_only_on_success:
  assumes "pending_slot (session req) = Some (PendingDict pending)"
  shows "(\<forall>out. payment_verify cfg req = Inr out \<longrightarrow>
            (pending_slot (session_after out) = Some EmptyDict
             \<longleftrightarrow> (\<exists>client. is_authenticated (user req) \<and> http_method req = ''POST''
                    \<and> get_razorpay_client cfg = Some client
                    \<and> form_get (POST req) ''razorpay_order_id'' [] = razorpay_order_id pending
                    \<and> verify_payment_signature client
                         (form_get (POST req) ''razorpay_order_id'' [])
                         (form_get (POST req) ''razorpay_payment_id'' [])
                         (form_get (POST req) ''razorpay_signature'' []) = None))
            \<and> (pending_slot (session_after out) \<noteq> Some EmptyDict
                 \<longrightarrow> pending_slot (session_after out) = Some (PendingDict pending)))
       \<and> (form_get (POST req) ''razorpay_order_id'' [] \<noteq> razorpay_order_id pending
            \<longrightarrow> (\<exists>out. payment_verify cfg req = Inr out
                   \<and> pending_slot (session_after out) = Some (PendingDict pending)))
       \<and> (is_authenticated (user req) \<and> http_method req = ''POST''
            \<and> get_razorpay_client cfg = Some client
            \<and> form_get (POST req) ''razorpay_order_id'' [] = razorpay_order_id pending
            \<and> verify_payment_signature client (form_get (POST req) ''razorpay_order_id'' [])
                 (form_get (POST req) ''razorpay_payment_id'' [])
                 (form_get (POST req) ''razorpay_signature'' [])
                = Some SignatureVerificationError
            \<longrightarrow> (\<exists>out. payment_verify cfg req = Inr out
                   \<and> response out
                       = RenderPaymentFailed ''Payment signature verification failed.''
                   \<and> pending_slot (session_after out) = Some (PendingDict pending)))
       \<and> (is_authenticated (user req) \<and> http_method req = ''POST''
            \<and> get_razorpay_client cfg = Some client
            \<and> form_get (POST req) ''razorpay_order_id'' [] = razorpay_order_id pending
            \<and> verify_payment_signature client (form_get (POST req) ''razorpay_order_id'' [])
                 (form_get (POST req) ''razorpay_payment_id'' [])
                 (form_get (POST req) ''razorpay_signature'' []) = None
            \<and> send_order_notification cfg
                 (NotifyCall (str_or (customer_name pending) (username (user req)))
                    (customer_email pending) (amount pending) (payment_label ''online'')
                    (form_get (POST req) ''razorpay_payment_id'' []) (pending_username pending))
                = Inr ()
            \<longrightarrow> (\<exists>out. payment_verify cfg req = Inr out
                   \<and> pending_slot (session_after out) = Some EmptyDict))"
proof (intro conjI impI allI)
  fix out
  assume o: "payment_verify cfg req = Inr out"
  show "pending_slot (session_after out) = Some EmptyDict
             \<longleftrightarrow> (\<exists>client. is_authenticated (user req) \<and> http_method req = ''POST''
                    \<and> get_razorpay_client cfg = Some client
                    \<and> form_get (POST req) ''razorpay_order_id'' [] = razorpay_order_id pending
                    \<and> verify_payment_signature client
                         (form_get (POST req) ''razorpay_order_id'' [])
                         (form_get (POST req) ''razorpay_payment_id'' [])
                         (form_get (POST req) ''razorpay_signature'' []) = None)"
    using o assms
    by (auto simp: payment_verify_def Let_def respond_def
             split: option.splits sum.splits if_splits)
  assume "pending_slot (session_after out) \<noteq> Some EmptyDict"
  then show "pending_slot (session_after out) = Some (PendingDict pending)"
    using o assms
    by (auto simp: payment_verify_def Let_def respond_def
             split: option.splits sum.splits if_splits)
next
  assume "form_get (POST req) ''razorpay_order_id'' [] \<noteq> razorpay_order_id pending"
  then show "\<exists>out. payment_verify cfg req = Inr out
                   \<and> pending_slot (session_after out) = Some (PendingDict pending)"
    using assms
    by (auto simp: payment_verify_def Let_def respond_def split: option.splits)
next
  assume a: "is_authenticated (user req) \<and> http_method req = ''POST''
            \<and> get_razorpay_client cfg = Some client
            \<and> form_get (POST req) ''razorpay_order_id'' [] = razorpay_order_id pending
            \<and> verify_payment_signature client (form_get (POST req) ''razorpay_order_id'' [])
                 (form_get (POST req) ''razorpay_payment_id'' [])
                 (form_get (POST req) ''razorpay_signature'' [])
                = Some SignatureVerificationError"
  then have "payment_verify cfg req =
           Inr (respond req (RenderPaymentFailed ''Payment signature verification failed.'') [])"
    using assms by (intro payment_verify_bad_signature) auto
  then show "\<exists>out. payment_verify cfg req = Inr out
                   \<and> response out
                       = RenderPaymentFailed ''Payment signature verification failed.''
                   \<and> pending_slot (session_after out) = Some (PendingDict pending)"
    using assms by (simp add: respond_def)
next
  assume a: "is_authenticated (user req) \<and> http_method req = ''POST''
            \<and> get_razorpay_client cfg = Some client
            \<and> form_get (POST req) ''razorpay_order_id'' [] = razorpay_order_id pending
            \<and> verify_payment_signature client (form_get (POST req) ''razorpay_order_id'' [])
                 (form_get (POST req) ''razorpay_payment_id'' [])
                 (form_get (POST req) ''razorpay_signature'' []) = None
            \<and> send_order_notification cfg
                 (NotifyCall (str_or (customer_name pending) (username (user req)))
                    (customer_email pending) (amount pending) (payment_label ''online'')
                    (form_get (POST req) ''razorpay_payment_id'' []) (pending_username pending))
                = Inr ()"
  with assms payment_verify_success [of req cfg client pending]
  show "\<exists>out. payment_verify cfg req = Inr out
                   \<and> pending_slot (session_after out) = Some EmptyDict"
    by auto
qed

theorem pending_cleared_only_on_success_witness:
  "pending_slot (session (sample_request form_good_signature)) = Some (PendingDict sample_pending)
   \<and> (\<exists>out. payment_verify sample_config (sample_request form_good_signature) = Inr out
         \<and> pending_slot (session_after out) = Some EmptyDict)
   \<and> (\<exists>out. payment_verify sample_config (sample_request form_bad_signature) = Inr out
         \<and> pending_slot (session_after out) = Some (PendingDict sample_pending))
   \<and> (\<exists>out. payment_verify sample_config (sample_request form_other_order) = Inr out
         \<and> pending_slot (session_after out) = Some (PendingDict sample_pending))"
proof -
  have u: "str_or ''Asha Rao'' u = ''Asha Rao''" for u by (simp add: str_or_def)
  note T = pending_cleared_only_on_success
    [where cfg = sample_config and client = "sample_razorpay ''rzp_test'' ''secret''",
     OF sample_hyps(4)]
  from T [of form_good_signature]
  have 1: "\<exists>out. payment_verify sample_config (sample_request form_good_signature) = Inr out
         \<and> pending_slot (session_after out) = Some EmptyDict"
    by (simp add: sample_hyps sample_forms sample_verdicts sample_pending_fields u
          sample_notifier)
  from T [of form_bad_signature]
  have 2: "\<exists>out. payment_verify sample_config (sample_request form_bad_signature) = Inr out
         \<and> pending_slot (session_after out) = Some (PendingDict sample_pending)"
    by (simp add: sample_hyps sample_forms sample_verdicts) blast
  from T [of form_other_order]
  have 3: "\<exists>out. payment_verify sample_config (sample_request form_other_order) = Inr out
         \<and> pending_slot (session_after out) = Some (PendingDict sample_pending)"
    by (simp add: sample_hyps sample_forms)
  from 1 2 3 sample_hyps(4) show ?thesis by blast
qed

text \<open>
  Claim C4 as stated fails: on the order-mismatch path the pending payment is not
  cleared.  With the stored order \<open>order_1\<close> and the submitted order \<open>order_2\<close> the view
  redirects and the session still holds the record.
\<close>

theorem mismatch_clears_pending_counterexample:
  "payment_verify sample_config (sample_request form_other_order) =
     Inr (respond (sample_request form_other_order) (Redirect ''checkout'')
            [(MsgError, ''Order mismatch detected. Please try checkout again.'')])
   \<and> pending_slot (session (sample_request form_other_order)) = Some (PendingDict sample_pending)
   \<and> map_sum id (pending_slot \<circ> session_after)
        (payment_verify sample_config (sample_request form_other_order))
       = Inr (Some (PendingDict sample_pending))
   \<and> Some (PendingDict sample_pending) \<noteq> Some EmptyDict"
proof -
  have h: "form_get (POST (sample_request form_other_order)) ''razorpay_order_id'' []
       \<noteq> razorpay_order_id sample_pending"
    by (simp add: sample_hyps sample_forms)
  have "payment_verify sample_config (sample_request form_other_order) =
     Inr (respond (sample_request form_other_order) (Redirect ''checkout'')
            [(MsgError, ''Order mismatch detected. Please try checkout again.'')])"
    by (rule payment_verify_mismatch [OF sample_hyps(1,2,3,4) h])
  then show ?thesis by (simp add: respond_def sample_hyps)
qed

section \<open>Checkout\<close>

lemma sample_get_cart: "get_cart (sample_request f) = sample_cart"
  by (simp add: get_cart_def sample_request_def sample_session_def)

lemma sample_user_facts:
  "username (user (sample_request f)) = ''asha''"
  "email (user (sample_request f)) = ''asha@example.org''"
  "full_name (user (sample_request f)) = ''Asha Rao''"
  by (simp_all add: sample_request_def sample_user_def)

lemma sample_priced_request:
  "build_cart_items sample_catalog (get_cart (sample_request f)) =
     Inr ([\<lparr>product = hd sample_catalog, quantity = 2, line_total = Decimal 20000 (- 2)\<rparr>],
          Decimal 20000 (- 2))"
  by (simp add: sample_get_cart sample_priced)

text \<open>The paths of \<^verbatim>\<open>checkout\<close> for an authenticated POST over a priced, non-empty cart.\<close>

lemma checkout_cod:
  assumes "is_authenticated (user req)" "http_method req = ''POST''"
    and "build_cart_items K (get_cart req) = Inr (items, tot)" "items \<noteq> []"
    and "posted_payment_method req = ''cod''"
    and "send_order_notification cfg
           (NotifyCall (posted_name req) (posted_email req) tot ''Cash on Delivery'' []
              (username (user req))) = Inr ()"
  shows "checkout cfg K req =
     Inr \<lparr>response = RenderCheckoutSuccess (posted_name req) tot ''Cash on Delivery'' None,
          session_after = (session req)\<lparr>cart_slot := Some [], modified := True\<rparr>,
          flash = [],
          notifications =
            [NotifyCall (posted_name req) (posted_email req) tot ''Cash on Delivery'' []
               (username (user req))],
          orders = [],
          saved_address = (if posted_address req \<noteq> [] then Some (posted_address req) else None)\<rparr>"
  using assms
  by (simp add: checkout_def Let_def payment_methods_keys payment_label_cod)

lemma checkout_cod_raises:
  assumes "is_authenticated (user req)" "http_method req = ''POST''"
    and "build_cart_items K (get_cart req) = Inr (items, tot)" "items \<noteq> []"
    and "posted_payment_method req = ''cod''"
    and "send_order_notification cfg
           (NotifyCall (posted_name req) (posted_email req) tot ''Cash on Delivery'' []
              (username (user req))) = Inl e"
  shows "checkout cfg K req = Inl e"
  using assms
  by (simp add: checkout_def Let_def payment_methods_keys payment_label_cod)

lemma checkout_online:
  assumes "is_authenticated (user req)" "http_method req = ''POST''"
    and "build_cart_items K (get_cart req) = Inr (items, tot)" "items \<noteq> []"
    and "posted_payment_method req = ''online''"
    and "get_razorpay_client cfg = Some client"
    and "remote_order req tot = Inr od"
    and "order_create client od = Inr order_id"
  shows "checkout cfg K req =
     Inr \<lparr>response = RenderOnlinePayment (RAZORPAY_KEY_ID cfg) order_id
                       (order_amount od) tot (posted_name req) (posted_email req),
          session_after = (session req)
            \<lparr>pending_slot := Some (PendingDict (new_pending req tot order_id)),
             modified := True\<rparr>,
          flash = [],
          notifications = [],
          orders = [od],
          saved_address = (if posted_address req \<noteq> [] then Some (posted_address req) else None)\<rparr>"
  using assms
  by (simp add: checkout_def Let_def payment_methods_keys)

lemma checkout_invalid_method:
  assumes "is_authenticated (user req)" "http_method req = ''POST''"
    and "build_cart_items K (get_cart req) = Inr (items, tot)" "items \<noteq> []"
    and "posted_payment_method req \<noteq> ''cod''" "posted_payment_method req \<noteq> ''online''"
  shows "checkout cfg K req =
     Inr ((respond req (Redirect ''checkout'')
             [(MsgError, ''Please select a valid payment method.'')])
          \<lparr>saved_address := (if posted_address req \<noteq> [] then Some (posted_address req) else None)\<rparr>)"
  using assms
  by (simp add: checkout_def Let_def payment_methods_keys)

lemma remote_order_amount:
  assumes "remote_order req tot = Inr od"
  shows "\<exists>x. dec_mul_int tot 100 = Inr x \<and> order_amount od = dec_int x"
  using assms by (auto simp: remote_order_def Let_def split: sum.splits)

lemma sample_methods:
  "posted_payment_method (sample_request form_cod) = ''cod''"
  "posted_payment_method (sample_request form_online) = ''online''"
  "posted_payment_method (sample_request Map.empty) = ''cod''"
  "POST (sample_request Map.empty) ''payment_method'' = None"
  "posted_payment_method (sample_request form_cod_line_break) = ''cod''"
  by (simp_all add: posted_payment_method_def form_get_def form_cod_def form_online_def
        form_cod_line_break_def sample_request_def)

lemma sample_names:
  "posted_name (sample_request Map.empty) = ''Asha Rao''"
  "posted_email (sample_request Map.empty) = ''asha@example.org''"
  "posted_name (sample_request form_cod) = ''Asha Rao''"
  "posted_email (sample_request form_cod) = ''asha@example.org''"
  "posted_name (sample_request form_online) = ''Asha Rao''"
  "posted_email (sample_request form_online) = ''asha@example.org''"
  by (simp_all add: posted_name_def posted_email_def form_get_def form_cod_def form_online_def
        sample_hyps sample_user_facts str_or_def) code_simp+

text \<open>
  The notifier does raise: a name with a line break goes into the subject of the mail,
  the sample transport refuses it, and the cash-on-delivery checkout ends in
  \<^verbatim>\<open>BadHeaderError\<close> with the cart never cleared.
\<close>

lemma sample_line_break_name:
  "posted_name (sample_request form_cod_line_break) = [CHR ''A'', CHR 0x0A, CHR ''B'']"
  by (simp add: posted_name_def form_get_def form_cod_line_break_def sample_hyps str_or_def)
     code_simp

lemma checkout_cod_bad_header:
  "checkout sample_config sample_catalog (sample_request form_cod_line_break)
     = Inl BadHeaderError"
proof -
  have "send_order_notification sample_config
           (NotifyCall (posted_name (sample_request form_cod_line_break))
              (posted_email (sample_request form_cod_line_break)) (Decimal 20000 (- 2))
              ''Cash on Delivery'' [] (username (user (sample_request form_cod_line_break))))
         = Inl BadHeaderError"
    by (simp add: sample_line_break_name send_order_notification_def sample_config_def)
  then show ?thesis
    by (intro checkout_cod_raises [OF sample_hyps(1,2) sample_priced_request _ sample_methods(5)])
       simp_all
qed

section \<open>Adding to the cart\<close>

lemma get_object_or_404_pid:
  "get_object_or_404 K i = Inr p \<Longrightarrow> pid p = i \<and> is_active p \<and> p \<in> set K"
  by (auto simp: get_object_or_404_def find_Some_iff split: option.splits)

lemma cart_get_update: "cart_get (AList.update k v c) k d = v"
  by (simp add: cart_get_def update_conv')

lemma map_of_update_other: "k' \<noteq> k \<Longrightarrow> map_of (AList.update k v c) k' = map_of c k'"
  by (simp add: update_conv')

lemma get_cart_saved: "get_cart (req\<lparr>session := save_cart s c\<rparr>) = c"
  by (simp add: get_cart_def save_cart_def)

lemma posted_quantity_session: "posted_quantity (req\<lparr>session := s\<rparr>) = posted_quantity req"
  by (simp add: posted_quantity_def)

lemma py_int_raises: "py_int s = Inl e \<Longrightarrow> e = ValueError"
  by (auto simp: py_int_def Let_def split: option.splits)

lemma add_to_cart_ok:
  assumes "http_method req = ''POST''" and "get_object_or_404 K i = Inr p"
    and "posted_quantity req = Inr q" and "py_str i = Inr key"
    and "resolve_url cfg (str_or (form_get (POST req) ''next'' []) ''products'') = Inr to"
  shows "add_to_cart cfg K req i =
     Inr ((respond req (Redirect to) [(MsgSuccess, ''Added '' @ name p @ '' to cart.'')])
          \<lparr>session_after := save_cart (session req)
             (AList.update key (cart_get (get_cart req) key 0 + (if 1 \<le> q then q else 1))
                (get_cart req))\<rparr>)"
proof -
  have "pid p = i" using assms(2) get_object_or_404_pid by blast
  moreover have "(if q < 1 then 1 else q) = (if 1 \<le> q then q else 1)" by simp
  ultimately show ?thesis using assms by (simp add: add_to_cart_def Let_def)
qed

lemma add_to_cart_unresolved:
  assumes "http_method req = ''POST''" and "get_object_or_404 K i = Inr p"
    and "posted_quantity req = Inr q" and "py_str i = Inr key"
    and "resolve_url cfg (str_or (form_get (POST req) ''next'' []) ''products'') = Inl e"
  shows "add_to_cart cfg K req i = Inl e"
proof -
  have "pid p = i" using assms(2) get_object_or_404_pid by blast
  then show ?thesis using assms by (simp add: add_to_cart_def Let_def)
qed

lemma resolve_url_products: "resolve_url cfg ''products'' = Inr ''products''"
  by (simp add: resolve_url_def URL_NAMES_def)

lemma sample_product_3: "get_object_or_404 sample_catalog 3 = Inr (hd sample_catalog)"
  by (simp add: get_object_or_404_def sample_catalog_def)

lemma sample_quantities:
  "posted_quantity (sample_request (form_quantity ''4'')) = Inr 4"
  "posted_quantity (sample_request (form_quantity ''1'')) = Inr 1"
  "py_int ''abc'' = Inl ValueError"
  "py_str 3 = Inr ''3''"
  by (simp_all add: posted_quantity_def sample_hyps form_quantity_def) code_simp+

lemma sample_next:
  "resolve_url cfg (str_or (form_get (POST (sample_request (form_quantity s))) ''next'' [])
      ''products'') = Inr ''products''"
  by (simp add: sample_hyps form_get_def form_quantity_def str_or_def resolve_url_products)

text \<open>
  Claim C9.  A POST to \<^verbatim>\<open>add_to_cart\<close> for an active product whose quantity field does
  not convert to an integer raises \<^verbatim>\<open>ValueError\<close>: the conversion comes before the
  guard that lifts the quantity to 1, and nothing catches it.  The field \<open>abc\<close> is such
  an input.
\<close>

theorem add_to_cart_bad_quantity_raises:
  assumes "http_method req = ''POST''" and "get_object_or_404 K product_id = Inr p"
    and "POST req ''quantity'' = Some s" and "py_int s = Inl e"
  shows "add_to_cart cfg K req product_id = Inl ValueError"
proof -
  have "e = ValueError" using assms(4) by (rule py_int_raises)
  with assms show ?thesis by (simp add: add_to_cart_def posted_quantity_def)
qed

theorem add_to_cart_bad_quantity_raises_witness:
  "http_method (sample_request (form_quantity ''abc'')) = ''POST''
   \<and> get_object_or_404 sample_catalog 3 = Inr (hd sample_catalog)
   \<and> POST (sample_request (form_quantity ''abc'')) ''quantity'' = Some ''abc''
   \<and> py_int ''abc'' = Inl ValueError
   \<and> add_to_cart sample_config sample_catalog (sample_request (form_quantity ''abc'')) 3
       = Inl ValueError"
proof -
  have f: "POST (sample_request (form_quantity ''abc'')) ''quantity'' = Some ''abc''"
    by (simp add: sample_hyps form_quantity_def)
  from add_to_cart_bad_quantity_raises
    [OF sample_hyps(2) sample_product_3 f sample_quantities(3), of sample_config]
  have "add_to_cart sample_config sample_catalog (sample_request (form_quantity ''abc'')) 3
          = Inl ValueError" .
  with f sample_hyps(2) [of "form_quantity ''abc''"] sample_product_3 sample_quantities(3)
  show ?thesis by blast
qed

end
